theory Spec2Isabelle
  imports Complex_Main "HOL-Library.Log_Nat"
begin

section \<open>The diagnostic output facility of whisk (error.c)\<close>

text \<open>
  The module writes formatted text to one fixed stream, flushes, and in two functions
  terminates the process. What it does is therefore a sequence of calls to the C library
  and to three collaborators of the host program. The embedding records that sequence as
  a list of events, oldest first, next to the one global of the module
  (\<open>_g_params_inited\<close>) and the state of the collaborators.

  The embedding is of the build that reads the parameters file. With
  \<open>SKIP_PARAMS_FILE\<close> defined there is no gate: both flags are the constant 0 and
  \<open>debug\<close>, \<open>progress\<close> and \<open>progress_meter\<close> never write.
\<close>

subsection \<open>Streams, events and the process state\<close>

datatype stream = Stdout | Stderr

text \<open>\<open>#define ERR_STREAM stdout\<close>\<close>

definition ERR_STREAM :: stream where
  "ERR_STREAM = Stdout"

text \<open>
  A value of the C type \<open>double\<close> (IEEE 754 binary64): a finite double is the rational
  number it denotes, next to the two infinities and NaN. The sign of a zero is not
  kept: in this module it could only decide the sign of an infinity, and every
  infinity ends in the same undefined conversion.
\<close>

datatype double = Finite rat | Pos_Inf | Neg_Inf | NaN

text \<open>
  The variadic arguments of the printf family. Only the formatter looks at them.
\<close>

datatype arg = Arg_Int int | Arg_Str string | Arg_Double double

datatype event =
    Write stream string      \<comment> \<open>text handed to the stream by \<open>fprintf\<close>/\<open>vfprintf\<close>\<close>
  | Flush_All                \<comment> \<open>\<open>fflush(NULL)\<close>\<close>
  | Load_Call string int     \<comment> \<open>\<open>Load_Params_File(f)\<close> and the value it returned\<close>
  | Print_Params_Call string \<comment> \<open>\<open>Print_Params_File(f)\<close>\<close>
  | Usage_Call stream int    \<comment> \<open>\<open>Print_Argument_Usage(stream, n)\<close>\<close>

text \<open>
  \<open>world\<close> is whatever the collaborators read and write (the parameters file and the
  parameter table it fills); the module itself never touches it.
\<close>

record 'w state =
  g_params_inited :: int
  world :: 'w
  trace :: "event list"

text \<open>
  What the module takes from outside: the parameter loader and writer, the two flags
  (macros over the loaded parameter table, declared in a header that is not part of
  the sources), and the formatting done by the C library. \<open>vformat fmt args\<close> is the
  text \<open>vfprintf\<close>/\<open>vsprintf\<close> produce for a format and its arguments; the number of
  characters they report is its length. Formats the C library leaves undefined are
  outside the model.
\<close>

record 'w env =
  Load_Params_File :: "string \<Rightarrow> 'w \<Rightarrow> int \<times> 'w"
  Print_Params_File :: "string \<Rightarrow> 'w \<Rightarrow> 'w"
  SHOW_DEBUG_MESSAGES :: "'w \<Rightarrow> int"
  SHOW_PROGRESS_MESSAGES :: "'w \<Rightarrow> int"
  vformat :: "string \<Rightarrow> arg list \<Rightarrow> string"

text \<open>
  Undefined behaviour of the C program is a result of its own, so that no theorem holds
  only because the model kept computing where the program could not.
\<close>

datatype ub =
    Buffer_Overrun    \<comment> \<open>a write past \<open>char buf[1024]\<close>\<close>
  | Signed_Overflow   \<comment> \<open>an \<open>int\<close> result outside \<open>int\<close>\<close>
  | Bad_Conversion    \<comment> \<open>a \<open>double\<close> that no \<open>int\<close> holds, converted to \<open>int\<close>\<close>

datatype 'w outcome =
    Returns "'w state"          \<comment> \<open>the call returns to its caller\<close>
  | Exits int "'w state"        \<comment> \<open>\<open>exit(code)\<close>: the process ends\<close>
  | Undefined ub "'w state"     \<comment> \<open>undefined behaviour, with the state reached before it\<close>

fun final :: "'w outcome \<Rightarrow> 'w state" where
  "final (Returns s) = s"
| "final (Exits c s) = s"
| "final (Undefined u s) = s"

definition emit :: "event list \<Rightarrow> 'w state \<Rightarrow> 'w state" where
  "emit es s = s\<lparr>trace := trace s @ es\<rparr>"

text \<open>The text that reached a stream, in order.\<close>

fun written :: "stream \<Rightarrow> event list \<Rightarrow> string" where
  "written st [] = []"
| "written st (Write st' t # es) = (if st' = st then t @ written st es else written st es)"
| "written st (e # es) = written st es"

fun load_calls :: "event list \<Rightarrow> nat" where
  "load_calls [] = 0"
| "load_calls (Load_Call f r # es) = Suc (load_calls es)"
| "load_calls (e # es) = load_calls es"

fun flushes :: "event list \<Rightarrow> nat" where
  "flushes [] = 0"
| "flushes (Flush_All # es) = Suc (flushes es)"
| "flushes (e # es) = flushes es"

subsection \<open>Control characters of the C string literals\<close>

definition NL :: char where "NL = CHR 0x0A"
definition TAB :: char where "TAB = CHR 0x09"
definition CR :: char where "CR = CHR 0x0D"

subsection \<open>warning and the configuration gate\<close>

text \<open>
  \<open>fprintf(ERR_STREAM, "--- Warning: ")\<close> has a format without a directive: it writes
  the literal. The message goes through the formatter.
\<close>

definition warning :: "'w env \<Rightarrow> string \<Rightarrow> arg list \<Rightarrow> 'w state \<Rightarrow> 'w state" where
  "warning E str args s =
     emit [Write ERR_STREAM ''--- Warning: '', Write ERR_STREAM (vformat E str args), Flush_All] s"

definition call_Load_Params_File :: "'w env \<Rightarrow> string \<Rightarrow> 'w state \<Rightarrow> int \<times> 'w state" where
  "call_Load_Params_File E f s =
     (case Load_Params_File E f (world s) of
        (r, w) \<Rightarrow> (r, emit [Load_Call f r] (s\<lparr>world := w\<rparr>)))"

definition call_Print_Params_File :: "'w env \<Rightarrow> string \<Rightarrow> 'w state \<Rightarrow> 'w state" where
  "call_Print_Params_File E f s =
     emit [Print_Params_Call f] (s\<lparr>world := Print_Params_File E f (world s)\<rparr>)"

definition load_failed_msg :: string where
  "load_failed_msg =
     ''Make sure %s is in the calling directory'' @ [NL] @
     ''Could not load parameters from file: %s'' @ [NL] @
     ''Writing defaults to current directory.'' @ [NL] @
     [TAB] @ ''Trying again...'' @ [NL]"

definition still_failed_msg :: string where
  "still_failed_msg = [TAB] @ ''Still couldn't load parameters from file.'' @ [NL]"

text \<open>
  \<open>check_params_loaded\<close>: the result is the C \<open>int\<close> it returns. A non-zero result of
  \<open>Load_Params_File\<close> is a failure.
\<close>

definition check_params_loaded :: "'w env \<Rightarrow> 'w state \<Rightarrow> int \<times> 'w state" where
  "check_params_loaded E s =
     (let f = ''default.parameters'' in
      if g_params_inited s = 0 then
        (case call_Load_Params_File E f s of
           (r1, s1) \<Rightarrow>
             if r1 \<noteq> 0 then
               (let s2 = warning E load_failed_msg [Arg_Str f, Arg_Str f] s1;
                    s3 = call_Print_Params_File E f s2
                in case call_Load_Params_File E f s3 of
                     (r2, s4) \<Rightarrow>
                       if r2 \<noteq> 0 then (0, warning E still_failed_msg [] s4)
                       else (1, s4\<lparr>g_params_inited := 1\<rparr>))
             else (1, s1\<lparr>g_params_inited := 1\<rparr>))
      else (1, s))"

subsection \<open>error, debug, help, progress\<close>

definition error :: "'w env \<Rightarrow> string \<Rightarrow> arg list \<Rightarrow> 'w state \<Rightarrow> 'w outcome" where
  "error E str args s =
     Exits (- 1)
       (emit [Write ERR_STREAM ''*** ERROR: '', Write ERR_STREAM (vformat E str args), Flush_All] s)"

text \<open>
  \<open>check_params_loaded() && SHOW_DEBUG_MESSAGES\<close>: the flag is read after the gate has
  run, and only when the gate returned non-zero.
\<close>

definition debug :: "'w env \<Rightarrow> string \<Rightarrow> arg list \<Rightarrow> 'w state \<Rightarrow> 'w outcome" where
  "debug E str args s =
     (case check_params_loaded E s of
        (ok, s1) \<Rightarrow>
          (let s2 = (if ok \<noteq> 0 \<and> SHOW_DEBUG_MESSAGES E (world s1) \<noteq> 0
                     then emit [Write ERR_STREAM (vformat E str args)] s1 else s1)
           in Returns (emit [Flush_All] s2)))"

definition "help" :: "'w env \<Rightarrow> int \<Rightarrow> string \<Rightarrow> arg list \<Rightarrow> 'w state \<Rightarrow> 'w outcome" where
  "help E show str args s =
     (if show \<noteq> 0 then
        Exits 0
          (emit [Usage_Call ERR_STREAM 0, Write ERR_STREAM (vformat E str args), Flush_All] s)
      else Returns s)"

definition progress :: "'w env \<Rightarrow> string \<Rightarrow> arg list \<Rightarrow> 'w state \<Rightarrow> 'w outcome" where
  "progress E str args s =
     (case check_params_loaded E s of
        (ok, s1) \<Rightarrow>
          (let s2 = (if ok \<noteq> 0 \<and> SHOW_PROGRESS_MESSAGES E (world s1) \<noteq> 0
                     then emit [Write ERR_STREAM (vformat E str args)] s1 else s1)
           in Returns (emit [Flush_All] s2)))"

subsection \<open>The arithmetic of double\<close>

text \<open>
  \<open>progress_meter\<close> computes in \<open>double\<close>. The arithmetic is that of IEEE 754 binary64
  with rounding to nearest, ties to even, every operation rounded on its own (no wider
  intermediate format).
\<close>

text \<open>
  \<open>binade x\<close> is the exponent \<open>e\<close> with \<open>2\<^sup>e \<le> \<bar>x\<bar> < 2\<^sup>e\<^sup>+\<^sup>1\<close>, for \<open>x \<noteq> 0\<close>.
\<close>

definition binade :: "rat \<Rightarrow> int" where
  "binade x =
     (if 1 \<le> \<bar>x\<bar> then bitlen \<lfloor>\<bar>x\<bar>\<rfloor> - 1 else - bitlen (\<lceil>1 / \<bar>x\<bar>\<rceil> - 1))"

text \<open>The smallest positive double and the largest finite one.\<close>

definition DBL_TRUE_MIN :: rat where
  "DBL_TRUE_MIN = 1 / 2 ^ 1074"

definition DBL_MAX :: rat where
  "DBL_MAX = 2 ^ 1024 - 2 ^ 971"

text \<open>
  The distance between neighbouring doubles around \<open>x\<close>: 53 significant bits, and
  below \<open>2\<^sup>-\<^sup>1\<^sup>0\<^sup>2\<^sup>2\<close> the fixed spacing of the subnormal numbers.
\<close>

definition ulp :: "rat \<Rightarrow> rat" where
  "ulp x = 2 powi (max (binade x) (- 1022) - 52)"

definition round_half_even :: "rat \<Rightarrow> int" where
  "round_half_even z =
     (let f = \<lfloor>z\<rfloor>; r = z - of_int f
      in if r < 1 / 2 then f else if 1 / 2 < r then f + 1 else if even f then f else f + 1)"

text \<open>
  \<open>fl x\<close> is the double an operation delivers whose exact result is \<open>x\<close>: the nearest
  multiple of the spacing, and an infinity when that is beyond \<open>DBL_MAX\<close>.
\<close>

definition fl :: "rat \<Rightarrow> double" where
  "fl x =
     (let y = of_int (round_half_even (x / ulp x)) * ulp x
      in if DBL_MAX < \<bar>y\<bar> then (if 0 < x then Pos_Inf else Neg_Inf) else Finite y)"

text \<open>
  \<open>Finite x\<close> is a value of the C type only when \<open>x\<close> is one of the doubles.
\<close>

definition is_double :: "rat \<Rightarrow> bool" where
  "is_double x = (fl x = Finite x)"

fun dsub :: "double \<Rightarrow> double \<Rightarrow> double" where
  "dsub (Finite x) (Finite y) = fl (x - y)"
| "dsub NaN b = NaN"
| "dsub a NaN = NaN"
| "dsub (Finite x) Pos_Inf = Neg_Inf"
| "dsub (Finite x) Neg_Inf = Pos_Inf"
| "dsub Pos_Inf Pos_Inf = NaN"
| "dsub Pos_Inf b = Pos_Inf"
| "dsub Neg_Inf Neg_Inf = NaN"
| "dsub Neg_Inf b = Neg_Inf"

fun dmul :: "double \<Rightarrow> double \<Rightarrow> double" where
  "dmul (Finite x) (Finite y) = fl (x * y)"
| "dmul NaN b = NaN"
| "dmul a NaN = NaN"
| "dmul (Finite x) Pos_Inf = (if x = 0 then NaN else if 0 < x then Pos_Inf else Neg_Inf)"
| "dmul (Finite x) Neg_Inf = (if x = 0 then NaN else if 0 < x then Neg_Inf else Pos_Inf)"
| "dmul Pos_Inf (Finite y) = (if y = 0 then NaN else if 0 < y then Pos_Inf else Neg_Inf)"
| "dmul Neg_Inf (Finite y) = (if y = 0 then NaN else if 0 < y then Neg_Inf else Pos_Inf)"
| "dmul Pos_Inf Pos_Inf = Pos_Inf"
| "dmul Pos_Inf Neg_Inf = Neg_Inf"
| "dmul Neg_Inf Pos_Inf = Neg_Inf"
| "dmul Neg_Inf Neg_Inf = Pos_Inf"

fun ddiv :: "double \<Rightarrow> double \<Rightarrow> double" where
  "ddiv (Finite x) (Finite y) =
     (if y = 0 then (if x = 0 then NaN else if 0 < x then Pos_Inf else Neg_Inf)
      else fl (x / y))"
| "ddiv NaN b = NaN"
| "ddiv a NaN = NaN"
| "ddiv (Finite x) b = Finite 0"
| "ddiv Pos_Inf (Finite y) = (if 0 \<le> y then Pos_Inf else Neg_Inf)"
| "ddiv Neg_Inf (Finite y) = (if 0 \<le> y then Neg_Inf else Pos_Inf)"
| "ddiv a b = NaN"

text \<open>The conversion of an \<open>int\<close> operand to \<open>double\<close>.\<close>

definition int_to_double :: "int \<Rightarrow> double" where
  "int_to_double i = fl (of_int i)"

text \<open>
  The integer multiples of \<open>DBL_TRUE_MIN\<close>: every double is one, and so is every
  difference of two doubles. Used in the error bounds only.
\<close>

definition on_grid :: "rat \<Rightarrow> bool" where
  "on_grid x = (of_int \<lfloor>x / DBL_TRUE_MIN\<rfloor> * DBL_TRUE_MIN = x)"

subsection \<open>progress_meter\<close>

text \<open>
  The meter assembles its line in \<open>char buf[1024]\<close> with \<open>sprintf(buf+n, ...)\<close>, where
  \<open>n\<close> counts the characters written so far. \<open>sprintf_at buf n text\<close> is one such
  call: \<open>buf\<close> is what the array holds in front of its last terminating zero, the text
  goes to offset \<open>n\<close> and is followed by a terminating zero, and the result is the new
  content with the count \<open>sprintf\<close> returns. A call that needs more than the 1024
  bytes of the array is undefined.
\<close>

definition BUF_SIZE :: int where
  "BUF_SIZE = 1024"

definition INT_MIN :: int where
  "INT_MIN = - 2147483648"

definition INT_MAX :: int where
  "INT_MAX = 2147483647"

fun and_then :: "ub + 'a \<Rightarrow> ('a \<Rightarrow> ub + 'b) \<Rightarrow> ub + 'b" where
  "and_then (Inl u) f = Inl u"
| "and_then (Inr x) f = f x"

definition sprintf_at :: "string \<Rightarrow> int \<Rightarrow> string \<Rightarrow> ub + (string \<times> int)" where
  "sprintf_at buf n text =
     (if n + int (length text) + 1 \<le> BUF_SIZE
      then Inr (take (nat n) buf @ text, int (length text))
      else Inl Buffer_Overrun)"

text \<open>The value of an \<open>int\<close> expression: outside the range of \<open>int\<close> it is undefined.\<close>

definition int_result :: "int \<Rightarrow> ub + int" where
  "int_result v = (if INT_MIN \<le> v \<and> v \<le> INT_MAX then Inr v else Inl Signed_Overflow)"

text \<open>
  The conversion of a \<open>double\<close> to \<open>int\<close> discards the fraction (truncation toward
  zero). It is undefined for an infinity, for NaN and when the result is not an
  \<open>int\<close>.
\<close>

fun double_to_int :: "double \<Rightarrow> ub + int" where
  "double_to_int (Finite x) =
     (let t = (if x < 0 then - \<lfloor>- x\<rfloor> else \<lfloor>x\<rfloor>)
      in if INT_MIN \<le> t \<and> t \<le> INT_MAX then Inr t else Inl Bad_Conversion)"
| "double_to_int d = Inl Bad_Conversion"

text \<open>
  \<open>int nc = (len)*(cur-min)/(max-min);\<close> The operand \<open>len\<close> is converted to
  \<open>double\<close>, the product is formed first, and the quotient is converted back. With
  \<open>max == min\<close> the quotient is an infinity or NaN.
\<close>

definition fill_expr :: "int \<Rightarrow> double \<Rightarrow> double \<Rightarrow> double \<Rightarrow> double" where
  "fill_expr len cur mn mx = ddiv (dmul (int_to_double len) (dsub cur mn)) (dsub mx mn)"

definition fill_count :: "int \<Rightarrow> double \<Rightarrow> double \<Rightarrow> double \<Rightarrow> ub + int" where
  "fill_count len cur mn mx = double_to_int (fill_expr len cur mn mx)"

text \<open>
  \<open>while(k-- > 0) n+=sprintf(buf+n,c);\<close> The source has this loop twice, for
  \<open>nc\<close> with \<open>"|"\<close> and for \<open>len\<close> with \<open>"-"\<close>. The test reads \<open>k\<close> and then
  decrements it, also on the last, failing test.
\<close>

function put_run :: "char \<Rightarrow> int \<Rightarrow> string \<times> int \<Rightarrow> ub + (string \<times> int)" where
  "put_run c k (buf, n) =
     (if k > 0 then
        (case sprintf_at buf n [c] of
           Inl u \<Rightarrow> Inl u
         | Inr (buf', m) \<Rightarrow> put_run c (k - 1) (buf', n + m))
      else if k - 1 < INT_MIN then Inl Signed_Overflow
      else Inr (buf, n))"
  by pat_completeness auto
termination
  by (relation "measure (\<lambda>(c, k, b). nat k)") auto

text \<open>
  The body of the \<open>if\<close> of \<open>progress_meter\<close> up to \<open>buf[n] = '\0'\<close>: \<open>cap\<close> is the
  caption as \<open>vsprintf\<close> formats it, the result is the first \<open>n\<close> bytes of \<open>buf\<close>.
\<close>

definition meter_buf :: "string \<Rightarrow> double \<Rightarrow> double \<Rightarrow> double \<Rightarrow> int \<Rightarrow> ub + string" where
  "meter_buf cap cur mn mx len =
     and_then (sprintf_at [] 0 [CR]) (\<lambda>(buf, n).
     and_then (sprintf_at buf n cap) (\<lambda>(buf, k). let n = n + k in
     and_then (sprintf_at buf n ''['') (\<lambda>(buf, k). let n = n + k in
     and_then (int_result (len - (n - 1))) (\<lambda>len.
     and_then (fill_count len cur mn mx) (\<lambda>nc.
     and_then (int_result (nc + 1)) (\<lambda>nc1.
     and_then (int_result (len - nc1)) (\<lambda>len.
     and_then (put_run CHR ''|'' nc (buf, n)) (\<lambda>(buf, n).
     and_then (put_run CHR ''-'' len (buf, n)) (\<lambda>(buf, n).
     and_then (sprintf_at buf n ('']'' @ [CR])) (\<lambda>(buf, k). let n = n + k in
     Inr (take (nat n) buf)))))))))))"

text \<open>A C string ends at its first zero byte.\<close>

definition c_string :: "string \<Rightarrow> string" where
  "c_string bytes = takeWhile (\<lambda>c. c \<noteq> CHR 0x00) bytes"

text \<open>
  \<open>fprintf(ERR_STREAM,buf)\<close> passes the assembled line as the format, with no
  arguments. \<open>fprintf\<close> reads \<open>buf\<close> as a C string.
\<close>

definition progress_meter ::
  "'w env \<Rightarrow> double \<Rightarrow> double \<Rightarrow> double \<Rightarrow> int \<Rightarrow> string \<Rightarrow> arg list \<Rightarrow> 'w state \<Rightarrow>
   'w outcome" where
  "progress_meter E cur mn mx len str args s =
     (case check_params_loaded E s of
        (ok, s1) \<Rightarrow>
          if ok \<noteq> 0 \<and> SHOW_PROGRESS_MESSAGES E (world s1) \<noteq> 0 then
            (case meter_buf (vformat E str args) cur mn mx len of
               Inl u \<Rightarrow> Undefined u s1
             | Inr buf \<Rightarrow>
                 Returns (emit [Write ERR_STREAM (vformat E (c_string buf) []), Flush_All] s1))
          else Returns s1)"

subsection \<open>An environment to run the module in\<close>

text \<open>
  A formatter for the directives the module's own formats use: \<open>%%\<close> writes one
  percent sign, \<open>%s\<close> writes the next argument when it is a string, every other
  character is copied. It stands for the C library where a theorem is evaluated at a
  concrete input; the formats used there have no other directive, and every \<open>%s\<close>
  has its string.
\<close>

fun c_format :: "string \<Rightarrow> arg list \<Rightarrow> string" where
  "c_format [] as = []"
| "c_format [c] as = [c]"
| "c_format (c # d # cs) as =
     (if c = CHR ''%'' \<and> d = CHR ''%'' then CHR ''%'' # c_format cs as
      else if c = CHR ''%'' \<and> d = CHR ''s'' then
        (case as of Arg_Str t # as' \<Rightarrow> t @ c_format cs as' | _ \<Rightarrow> c_format cs as)
      else c # c_format (d # cs) as)"

text \<open>
  The parameters file of the example: the loader succeeds when the file is present, the
  writer creates it when the directory can be written, and the two flags are what the
  file holds.
\<close>

record params_file =
  present :: bool
  writable :: bool
  show_debug :: int
  show_progress :: int

definition file_env :: "params_file env" where
  "file_env = \<lparr>
     Load_Params_File = (\<lambda>f w. (if present w then 0 else 1, w)),
     Print_Params_File = (\<lambda>f w. if writable w then w\<lparr>present := True\<rparr> else w),
     SHOW_DEBUG_MESSAGES = show_debug,
     SHOW_PROGRESS_MESSAGES = show_progress,
     vformat = c_format \<rparr>"

text \<open>The same collaborators where no load ever succeeds.\<close>

definition no_file_env :: "params_file env" where
  "no_file_env = file_env\<lparr>Load_Params_File := (\<lambda>f w. (1, w))\<rparr>"

definition start :: "bool \<Rightarrow> bool \<Rightarrow> int \<Rightarrow> int \<Rightarrow> params_file state" where
  "start p w d g = \<lparr> g_params_inited = 0,
     world = \<lparr> present = p, writable = w, show_debug = d, show_progress = g \<rparr>,
     trace = [] \<rparr>"

subsection \<open>Sequences of gated calls\<close>

text \<open>
  The three functions that consult the gate, as values, and a process that calls them
  one after the other. The run stops where a call does not return.
\<close>

datatype gated_call =
    Debug string "arg list"
  | Progress string "arg list"
  | Progress_Meter double double double int string "arg list"

fun do_call :: "'w env \<Rightarrow> gated_call \<Rightarrow> 'w state \<Rightarrow> 'w outcome" where
  "do_call E (Debug str args) s = debug E str args s"
| "do_call E (Progress str args) s = progress E str args s"
| "do_call E (Progress_Meter cur mn mx len str args) s = progress_meter E cur mn mx len str args s"

fun run_calls :: "'w env \<Rightarrow> gated_call list \<Rightarrow> 'w state \<Rightarrow> 'w outcome" where
  "run_calls E [] s = Returns s"
| "run_calls E (c # cs) s =
     (case do_call E c s of
        Returns s' \<Rightarrow> run_calls E cs s'
      | Exits code s' \<Rightarrow> Exits code s'
      | Undefined u s' \<Rightarrow> Undefined u s')"

text \<open>The loads that succeeded (\<open>Load_Params_File\<close> returned zero).\<close>

fun successful_loads :: "event list \<Rightarrow> nat" where
  "successful_loads [] = 0"
| "successful_loads (Load_Call f r # es) =
     (if r = 0 then Suc (successful_loads es) else successful_loads es)"
| "successful_loads (e # es) = successful_loads es"

text \<open>
  What the C standard says of a format without a conversion specification: its
  characters are copied to the output unchanged.
\<close>

definition copies_plain_text :: "'w env \<Rightarrow> bool" where
  "copies_plain_text E = (\<forall>t. CHR ''%'' \<notin> set t \<longrightarrow> vformat E t [] = t)"

text \<open>
  At most one load succeeds, and the flag is set exactly when one has: the relation
  between the trace and \<open>_g_params_inited\<close> that every gated call keeps.
\<close>

definition one_success :: "'w state \<Rightarrow> bool" where
  "one_success s =
     (successful_loads (trace s) = (if g_params_inited s = 0 then 0 else 1))"

subsection \<open>Example states and texts\<close>

text \<open>
  The first warning of the gate as the example formatter writes it, and the state
  of the example after a first load that succeeded.
\<close>

definition load_failed_text :: string where
  "load_failed_text =
     ''Make sure default.parameters is in the calling directory'' @ [NL] @
     ''Could not load parameters from file: default.parameters'' @ [NL] @
     ''Writing defaults to current directory.'' @ [NL] @
     [TAB] @ ''Trying again...'' @ [NL]"

text \<open>The largest power of two among the doubles.\<close>

definition huge :: rat where
  "huge = 2 ^ 1023"

definition loaded :: "params_file state" where
  "loaded = \<lparr>g_params_inited = 1,
     world = \<lparr>present = True, writable = False, show_debug = 1, show_progress = 1\<rparr>,
     trace = [Load_Call ''default.parameters'' 0]\<rparr>"

section \<open>Properties\<close>

subsection \<open>Events and text\<close>

lemma written_append: "written st (es @ fs) = written st es @ written st fs"
  by (induction st es rule: written.induct) simp_all

lemma load_calls_append: "load_calls (es @ fs) = load_calls es + load_calls fs"
  by (induction es rule: load_calls.induct) simp_all

lemma flushes_append: "flushes (es @ fs) = flushes es + flushes fs"
  by (induction es rule: flushes.induct) simp_all

lemma successful_loads_append:
  "successful_loads (es @ fs) = successful_loads es + successful_loads fs"
  by (induction es rule: successful_loads.induct) simp_all

lemma emit_simps [simp]:
  "trace (emit es s) = trace s @ es"
  "world (emit es s) = world s"
  "g_params_inited (emit es s) = g_params_inited s"
  by (simp_all add: emit_def)

lemma replicate_numeral_unfold:
  "replicate (numeral k) x = x # replicate (pred_numeral k) x"
  by (simp add: numeral_eq_Suc)

subsection \<open>The gate\<close>

lemma gate_initialised:
  "g_params_inited s \<noteq> 0 \<Longrightarrow> check_params_loaded E s = (1, s)"
  by (simp add: check_params_loaded_def)

lemma gate_first_use:
  assumes "g_params_inited s = 0"
    and "Load_Params_File E ''default.parameters'' (world s) = (r1, w1)"
    and "Load_Params_File E ''default.parameters''
           (Print_Params_File E ''default.parameters'' w1) = (r2, w2)"
  shows "check_params_loaded E s =
     (if r1 = 0 then
        (1, s\<lparr>g_params_inited := 1, world := w1,
              trace := trace s @ [Load_Call ''default.parameters'' r1]\<rparr>)
      else if r2 = 0 then
        (1, s\<lparr>g_params_inited := 1, world := w2,
              trace := trace s @
                [Load_Call ''default.parameters'' r1,
                 Write ERR_STREAM ''--- Warning: '',
                 Write ERR_STREAM (vformat E load_failed_msg
                   [Arg_Str ''default.parameters'', Arg_Str ''default.parameters'']),
                 Flush_All,
                 Print_Params_Call ''default.parameters'',
                 Load_Call ''default.parameters'' r2]\<rparr>)
      else
        (0, s\<lparr>world := w2,
              trace := trace s @
                [Load_Call ''default.parameters'' r1,
                 Write ERR_STREAM ''--- Warning: '',
                 Write ERR_STREAM (vformat E load_failed_msg
                   [Arg_Str ''default.parameters'', Arg_Str ''default.parameters'']),
                 Flush_All,
                 Print_Params_Call ''default.parameters'',
                 Load_Call ''default.parameters'' r2,
                 Write ERR_STREAM ''--- Warning: '',
                 Write ERR_STREAM (vformat E still_failed_msg []),
                 Flush_All]\<rparr>))"
  using assms
  by (simp add: check_params_loaded_def call_Load_Params_File_def
      call_Print_Params_File_def warning_def emit_def Let_def)

text \<open>
  The four ways through \<open>check_params_loaded\<close>: already initialised, first load
  succeeded, second load succeeded, both loads failed.
\<close>

lemma gate_result_cases:
  obtains (initialised) "g_params_inited s \<noteq> 0" "check_params_loaded E s = (1, s)"
  | (first_load) w1 where "g_params_inited s = 0"
      "check_params_loaded E s =
         (1, s\<lparr>g_params_inited := 1, world := w1,
               trace := trace s @ [Load_Call ''default.parameters'' 0]\<rparr>)"
  | (second_load) r1 w2 where "g_params_inited s = 0" "r1 \<noteq> 0"
      "check_params_loaded E s =
         (1, s\<lparr>g_params_inited := 1, world := w2,
               trace := trace s @
                 [Load_Call ''default.parameters'' r1,
                  Write ERR_STREAM ''--- Warning: '',
                  Write ERR_STREAM (vformat E load_failed_msg
                    [Arg_Str ''default.parameters'', Arg_Str ''default.parameters'']),
                  Flush_All,
                  Print_Params_Call ''default.parameters'',
                  Load_Call ''default.parameters'' 0]\<rparr>)"
  | (failed) r1 r2 w2 where "g_params_inited s = 0" "r1 \<noteq> 0" "r2 \<noteq> 0"
      "check_params_loaded E s =
         (0, s\<lparr>world := w2,
               trace := trace s @
                 [Load_Call ''default.parameters'' r1,
                  Write ERR_STREAM ''--- Warning: '',
                  Write ERR_STREAM (vformat E load_failed_msg
                    [Arg_Str ''default.parameters'', Arg_Str ''default.parameters'']),
                  Flush_All,
                  Print_Params_Call ''default.parameters'',
                  Load_Call ''default.parameters'' r2,
                  Write ERR_STREAM ''--- Warning: '',
                  Write ERR_STREAM (vformat E still_failed_msg []),
                  Flush_All]\<rparr>)"
proof (cases "g_params_inited s = 0")
  case False
  then show ?thesis using initialised gate_initialised by blast
next
  case True
  obtain r1 w1 where l1: "Load_Params_File E ''default.parameters'' (world s) = (r1, w1)"
    by (cases "Load_Params_File E ''default.parameters'' (world s)")
  obtain r2 w2 where l2: "Load_Params_File E ''default.parameters''
           (Print_Params_File E ''default.parameters'' w1) = (r2, w2)"
    by (cases "Load_Params_File E ''default.parameters''
           (Print_Params_File E ''default.parameters'' w1)")
  note g = gate_first_use [OF True l1 l2]
  show ?thesis
  proof (cases "r1 = 0")
    case r1: True
    then show ?thesis using g True first_load by simp
  next
    case r1: False
    show ?thesis
    proof (cases "r2 = 0")
      case True
      then show ?thesis using g r1 \<open>g_params_inited s = 0\<close> second_load by simp
    next
      case False
      then show ?thesis using g r1 \<open>g_params_inited s = 0\<close> failed by simp
    qed
  qed
qed

lemma gate_failed_text:
  assumes "check_params_loaded E s = (0, s1)"
  shows "written ERR_STREAM (trace s1) =
           written ERR_STREAM (trace s) @
           ''--- Warning: '' @
           vformat E load_failed_msg
             [Arg_Str ''default.parameters'', Arg_Str ''default.parameters''] @
           ''--- Warning: '' @ vformat E still_failed_msg []"
    and "flushes (trace s1) = flushes (trace s) + 2"
    and "g_params_inited s = 0" and "g_params_inited s1 = 0"
proof -
  let ?W = "''--- Warning: '' @
           vformat E load_failed_msg
             [Arg_Str ''default.parameters'', Arg_Str ''default.parameters''] @
           ''--- Warning: '' @ vformat E still_failed_msg []"
  have "written ERR_STREAM (trace s1) = written ERR_STREAM (trace s) @ ?W \<and>
        flushes (trace s1) = flushes (trace s) + 2 \<and>
        g_params_inited s = 0 \<and> g_params_inited s1 = 0"
    by (rule gate_result_cases [where s = s and E = E];
        use assms in \<open>auto simp add: written_append flushes_append\<close>)
  then show "written ERR_STREAM (trace s1) = written ERR_STREAM (trace s) @ ?W"
    and "flushes (trace s1) = flushes (trace s) + 2"
    and "g_params_inited s = 0" and "g_params_inited s1 = 0"
    by simp_all
qed

lemma gate_quiet:
  assumes "check_params_loaded E s = (ok, s1)"
    and "g_params_inited s \<noteq> 0 \<or> fst (Load_Params_File E ''default.parameters'' (world s)) = 0"
  shows "written st (trace s1) = written st (trace s)"
    and "flushes (trace s1) = flushes (trace s)"
    and "ok = 1"
proof -
  have "written st (trace s1) = written st (trace s) \<and> flushes (trace s1) = flushes (trace s)
          \<and> ok = 1"
  proof (cases "g_params_inited s = 0")
    case False
    then show ?thesis using assms(1) by (simp add: gate_initialised)
  next
    case True
    obtain r1 w1 where l1: "Load_Params_File E ''default.parameters'' (world s) = (r1, w1)"
      by (cases "Load_Params_File E ''default.parameters'' (world s)")
    obtain r2 w2 where l2: "Load_Params_File E ''default.parameters''
           (Print_Params_File E ''default.parameters'' w1) = (r2, w2)"
      by (cases "Load_Params_File E ''default.parameters''
           (Print_Params_File E ''default.parameters'' w1)")
    have "r1 = 0" using assms(2) True l1 by simp
    then show ?thesis
      using gate_first_use [OF True l1 l2] assms(1)
      by (auto simp add: written_append flushes_append)
  qed
  then show "written st (trace s1) = written st (trace s)"
    and "flushes (trace s1) = flushes (trace s)" and "ok = 1" by simp_all
qed

lemma gate_one_success:
  assumes "one_success s" "check_params_loaded E s = (ok, s1)"
  shows "one_success s1"
  by (rule gate_result_cases [where s = s and E = E];
      use assms in \<open>auto simp add: one_success_def successful_loads_append\<close>)

subsection \<open>The gated functions, once the gate has run\<close>

lemma debug_after_gate:
  "check_params_loaded E s = (ok, s1) \<Longrightarrow>
   debug E str args s =
     Returns (emit ((if ok \<noteq> 0 \<and> SHOW_DEBUG_MESSAGES E (world s1) \<noteq> 0
                     then [Write ERR_STREAM (vformat E str args)] else []) @ [Flush_All]) s1)"
  by (simp add: debug_def emit_def)

lemma progress_after_gate:
  "check_params_loaded E s = (ok, s1) \<Longrightarrow>
   progress E str args s =
     Returns (emit ((if ok \<noteq> 0 \<and> SHOW_PROGRESS_MESSAGES E (world s1) \<noteq> 0
                     then [Write ERR_STREAM (vformat E str args)] else []) @ [Flush_All]) s1)"
  by (simp add: progress_def emit_def)

lemma progress_meter_after_gate:
  "check_params_loaded E s = (ok, s1) \<Longrightarrow>
   progress_meter E cur mn mx len str args s =
     (if ok \<noteq> 0 \<and> SHOW_PROGRESS_MESSAGES E (world s1) \<noteq> 0 then
        (case meter_buf (vformat E str args) cur mn mx len of
           Inl u \<Rightarrow> Undefined u s1
         | Inr buf \<Rightarrow>
             Returns (emit [Write ERR_STREAM (vformat E (c_string buf) []), Flush_All] s1))
      else Returns s1)"
  by (simp add: progress_meter_def)

lemma do_call_after_gate:
  assumes "check_params_loaded E s = (ok, s1)"
  shows "g_params_inited (final (do_call E c s)) = g_params_inited s1"
    and "world (final (do_call E c s)) = world s1"
    and "load_calls (trace (final (do_call E c s))) = load_calls (trace s1)"
    and "successful_loads (trace (final (do_call E c s))) = successful_loads (trace s1)"
  using assms
  by (cases c;
      simp add: debug_after_gate progress_after_gate progress_meter_after_gate
        load_calls_append successful_loads_append split: sum.split)+

lemma run_calls_initialised:
  "g_params_inited s \<noteq> 0 \<Longrightarrow>
     g_params_inited (final (run_calls E cs s)) = g_params_inited s \<and>
     world (final (run_calls E cs s)) = world s \<and>
     load_calls (trace (final (run_calls E cs s))) = load_calls (trace s)"
proof (induction cs arbitrary: s)
  case Nil
  show ?case by simp
next
  case (Cons c cs)
  note g = gate_initialised [OF Cons.prems, of E]
  note d = do_call_after_gate [OF g, of c]
  show ?case
  proof (cases "do_call E c s")
    case (Returns s')
    with d have "g_params_inited s' = g_params_inited s" "world s' = world s"
      "load_calls (trace s') = load_calls (trace s)" by simp_all
    with Cons.IH [of s'] Cons.prems Returns show ?thesis by simp
  next
    case (Exits code s')
    with d show ?thesis by simp
  next
    case (Undefined u s')
    with d show ?thesis by simp
  qed
qed

lemma run_calls_one_success:
  "one_success s \<Longrightarrow> one_success (final (run_calls E cs s))"
proof (induction cs arbitrary: s)
  case Nil
  then show ?case by simp
next
  case (Cons c cs)
  obtain ok s1 where g: "check_params_loaded E s = (ok, s1)"
    by (cases "check_params_loaded E s")
  note d = do_call_after_gate [OF g, of c]
  have "one_success s1" using Cons.prems g by (rule gate_one_success)
  with d have o: "one_success (final (do_call E c s))" by (simp add: one_success_def)
  show ?case
  proof (cases "do_call E c s")
    case (Returns s')
    with o Cons.IH [of s'] show ?thesis by simp
  next
    case (Exits code s')
    with o show ?thesis by simp
  next
    case (Undefined u s')
    with o show ?thesis by simp
  qed
qed

subsection \<open>When loads fail\<close>

lemma gate_noisy:
  assumes "check_params_loaded E s = (ok, s1)" "g_params_inited s = 0"
    and "fst (Load_Params_File E ''default.parameters'' (world s)) \<noteq> 0"
  shows "written ERR_STREAM (trace s1) =
           written ERR_STREAM (trace s) @
           ''--- Warning: '' @
           vformat E load_failed_msg
             [Arg_Str ''default.parameters'', Arg_Str ''default.parameters''] @
           (if ok = 0 then ''--- Warning: '' @ vformat E still_failed_msg [] else [])"
    and "flushes (trace s1) = flushes (trace s) + (if ok = 0 then 2 else 1)"
proof -
  obtain r1 w1 where l1: "Load_Params_File E ''default.parameters'' (world s) = (r1, w1)"
    by (cases "Load_Params_File E ''default.parameters'' (world s)")
  obtain r2 w2 where l2: "Load_Params_File E ''default.parameters''
         (Print_Params_File E ''default.parameters'' w1) = (r2, w2)"
    by (cases "Load_Params_File E ''default.parameters''
         (Print_Params_File E ''default.parameters'' w1)")
  have r1: "r1 \<noteq> 0" using assms(3) l1 by simp
  note g = gate_first_use [OF assms(2) l1 l2]
  show "written ERR_STREAM (trace s1) =
           written ERR_STREAM (trace s) @
           ''--- Warning: '' @
           vformat E load_failed_msg
             [Arg_Str ''default.parameters'', Arg_Str ''default.parameters''] @
           (if ok = 0 then ''--- Warning: '' @ vformat E still_failed_msg [] else [])"
    using g r1 assms(1) by (cases "r2 = 0") (auto simp add: written_append)
  show "flushes (trace s1) = flushes (trace s) + (if ok = 0 then 2 else 1)"
    using g r1 assms(1) by (cases "r2 = 0") (auto simp add: flushes_append)
qed

lemma gate_all_fail:
  assumes "g_params_inited s = 0" "\<forall>f w. fst (Load_Params_File E f w) \<noteq> 0"
  shows "\<exists>s1. check_params_loaded E s = (0, s1) \<and> g_params_inited s1 = 0 \<and>
              load_calls (trace s1) = load_calls (trace s) + 2"
proof -
  obtain r1 w1 where l1: "Load_Params_File E ''default.parameters'' (world s) = (r1, w1)"
    by (cases "Load_Params_File E ''default.parameters'' (world s)")
  obtain r2 w2 where l2: "Load_Params_File E ''default.parameters''
         (Print_Params_File E ''default.parameters'' w1) = (r2, w2)"
    by (cases "Load_Params_File E ''default.parameters''
         (Print_Params_File E ''default.parameters'' w1)")
  have "r1 \<noteq> 0" using assms(2) [rule_format, of "''default.parameters''" "world s"] l1
    by simp
  moreover have "r2 \<noteq> 0"
    using assms(2) [rule_format, of "''default.parameters''"
        "Print_Params_File E ''default.parameters'' w1"] l2
    by simp
  ultimately show ?thesis
    using gate_first_use [OF assms(1) l1 l2] assms(1) by (simp add: load_calls_append)
qed

lemma do_call_returns_when_gate_fails:
  assumes "check_params_loaded E s = (0, s1)"
  shows "\<exists>s'. do_call E c s = Returns s' \<and> g_params_inited s' = g_params_inited s1 \<and>
              load_calls (trace s') = load_calls (trace s1)"
  using assms
  by (cases c;
      simp add: debug_after_gate progress_after_gate progress_meter_after_gate
        load_calls_append)

lemma run_calls_all_fail:
  assumes "\<forall>f w. fst (Load_Params_File E f w) \<noteq> 0"
  shows "g_params_inited s = 0 \<Longrightarrow>
         \<exists>s'. run_calls E cs s = Returns s' \<and> g_params_inited s' = 0 \<and>
              load_calls (trace s') = load_calls (trace s) + 2 * length cs"
proof (induction cs arbitrary: s)
  case Nil
  then show ?case by simp
next
  case (Cons c cs)
  obtain s1 where g: "check_params_loaded E s = (0, s1)" "g_params_inited s1 = 0"
    "load_calls (trace s1) = load_calls (trace s) + 2"
    using gate_all_fail [OF Cons.prems assms] by blast
  obtain s2 where d: "do_call E c s = Returns s2" "g_params_inited s2 = g_params_inited s1"
    "load_calls (trace s2) = load_calls (trace s1)"
    using do_call_returns_when_gate_fails [OF g(1), of c] by blast
  have "g_params_inited s2 = 0" using d(2) g(2) by simp
  from Cons.IH [OF this]
  obtain s' where r: "run_calls E cs s2 = Returns s'" "g_params_inited s' = 0"
    "load_calls (trace s') = load_calls (trace s2) + 2 * length cs"
    by blast
  have "run_calls E (c # cs) s = Returns s'" using d(1) r(1) by simp
  moreover have "load_calls (trace s') = load_calls (trace s) + 2 * length (c # cs)"
    using r(3) d(3) g(3) by simp
  ultimately show ?case using r(2) by blast
qed

subsection \<open>The meter's buffer\<close>

declare put_run.simps [simp del]

lemma sprintf_at_end:
  "n = int (length buf) \<Longrightarrow> n + int (length text) + 1 \<le> BUF_SIZE \<Longrightarrow>
   sprintf_at buf n text = Inr (buf @ text, int (length text))"
  by (simp add: sprintf_at_def)

lemma put_run_none:
  "k \<le> 0 \<Longrightarrow> INT_MIN < k \<Longrightarrow> put_run c k (buf, n) = Inr (buf, n)"
  by (simp add: put_run.simps)

lemma put_run_some:
  "0 \<le> k \<Longrightarrow> n = int (length buf) \<Longrightarrow> n + k + 1 \<le> BUF_SIZE \<Longrightarrow>
   put_run c k (buf, n) = Inr (buf @ replicate (nat k) c, n + k)"
proof (induction c k "(buf, n)" arbitrary: buf n rule: put_run.induct)
  case (1 c k buf n)
  show ?case
  proof (cases "k > 0")
    case False
    with "1.prems" have "k = 0" by simp
    then show ?thesis by (simp add: put_run.simps INT_MIN_def)
  next
    case True
    have w: "sprintf_at buf n [c] = Inr (buf @ [c], 1)"
      using "1.prems" True by (simp add: sprintf_at_end)
    have "put_run c (k - 1) (buf @ [c], n + 1) =
            Inr ((buf @ [c]) @ replicate (nat (k - 1)) c, (n + 1) + (k - 1))"
      using "1.prems" True by (intro "1.hyps"[OF True w]) simp_all
    moreover have "nat k = Suc (nat (k - 1))" using True by simp
    ultimately show ?thesis
      using True w by (simp add: put_run.simps[of c k buf n])
  qed
qed

lemma put_run_closed:
  "INT_MIN < k \<Longrightarrow> n = int (length buf) \<Longrightarrow> n + max 0 k + 1 \<le> BUF_SIZE \<Longrightarrow>
   put_run c k (buf, n) = Inr (buf @ replicate (nat k) c, n + max 0 k)"
  by (cases "0 \<le> k") (simp_all add: put_run_some put_run_none max_def)

text \<open>
  The line in closed form, when every \<open>int\<close> stays in range and the line with its
  terminating zero fits the array.
\<close>

lemma meter_buf_closed:
  assumes fc: "fill_count (len - (int (length cap) + 1)) cur mn mx = Inr nc"
    and l1: "INT_MIN \<le> len - (int (length cap) + 1)" "len - (int (length cap) + 1) \<le> INT_MAX"
    and n1: "INT_MIN < nc" "nc + 1 \<le> INT_MAX"
    and l2: "INT_MIN < len - (int (length cap) + 1) - (nc + 1)"
            "len - (int (length cap) + 1) - (nc + 1) \<le> INT_MAX"
    and fits: "int (length cap) + max 0 nc +
                 max 0 (len - (int (length cap) + 1) - (nc + 1)) + 5 \<le> BUF_SIZE"
  shows "meter_buf cap cur mn mx len =
           Inr (CR # cap @ ''['' @ replicate (nat nc) CHR ''|'' @
                replicate (nat (len - (int (length cap) + 1) - (nc + 1))) CHR ''-'' @
                '']'' @ [CR])"
proof -
  let ?c = "int (length cap)"
  let ?l1 = "len - (?c + 1)"
  let ?l2 = "?l1 - (nc + 1)"
  let ?b3 = "CR # cap @ ''[''"
  let ?b4 = "?b3 @ replicate (nat nc) CHR ''|''"
  let ?b5 = "?b4 @ replicate (nat ?l2) CHR ''-''"
  have s1: "sprintf_at [] 0 [CR] = Inr ([CR], 1)"
    using fits by (simp add: sprintf_at_def BUF_SIZE_def)
  have s2: "sprintf_at [CR] 1 cap = Inr (CR # cap, ?c)"
    using fits by (simp add: sprintf_at_def BUF_SIZE_def)
  have s3: "sprintf_at (CR # cap) (1 + ?c) ''['' = Inr (?b3, 1)"
    using fits by (simp add: sprintf_at_def BUF_SIZE_def)
  have i1: "int_result (len - (1 + ?c + 1 - 1)) = Inr ?l1"
    using l1 by (simp add: int_result_def)
  have i2: "int_result (nc + 1) = Inr (nc + 1)"
    using n1 by (simp add: int_result_def)
  have i3: "int_result (?l1 - (nc + 1)) = Inr ?l2"
    using l2 by (simp add: int_result_def)
  have p1: "put_run CHR ''|'' nc (?b3, 1 + ?c + 1) = Inr (?b4, 1 + ?c + 1 + max 0 nc)"
    using n1 fits by (intro put_run_closed) (simp_all add: max_def split: if_splits)
  have p2: "put_run CHR ''-'' ?l2 (?b4, 1 + ?c + 1 + max 0 nc) =
              Inr (?b5, 1 + ?c + 1 + max 0 nc + max 0 ?l2)"
    using l2 fits by (intro put_run_closed) (simp_all add: max_def split: if_splits)
  have s4: "sprintf_at ?b5 (1 + ?c + 1 + max 0 nc + max 0 ?l2) ('']'' @ [CR]) =
              Inr (?b5 @ '']'' @ [CR], 2)"
    using fits by (intro sprintf_at_end[THEN trans]) (simp_all add: max_def split: if_splits)
  have len5: "nat (1 + ?c + 1 + max 0 nc + max 0 ?l2 + 2) = length (?b5 @ '']'' @ [CR])"
  proof -
    have m: "max 0 nc = int (nat nc)" "max 0 ?l2 = int (nat ?l2)" by simp_all
    have "1 + ?c + 1 + int (nat nc) + int (nat ?l2) + 2 = int (length (?b5 @ '']'' @ [CR]))"
      by (simp del: int_nat_eq)
    then show ?thesis unfolding m by (simp only: nat_int)
  qed
  show ?thesis
    unfolding meter_buf_def
    by (simp only: s1 s2 s3 i1 i2 i3 fc p1 p2 s4 len5 and_then.simps prod.case Let_def
          take_all order_refl) simp
qed

subsection \<open>Rounding\<close>

text \<open>
  Rounding to the nearest integer, ties to even, moves a number by at most one half
  and keeps integers and signs.
\<close>

lemma round_half_even_cases:
  obtains f where "of_int f \<le> z" "z < of_int f + 1"
    "round_half_even z = f \<and> z - of_int f \<le> 1 / 2 \<or>
     round_half_even z = f + 1 \<and> 1 / 2 \<le> z - of_int f"
proof -
  define f where "f = \<lfloor>z\<rfloor>"
  have f: "of_int f \<le> z" "z < of_int f + 1" unfolding f_def by linarith+
  have "round_half_even z =
      (if z - of_int f < 1 / 2 then f else if 1 / 2 < z - of_int f then f + 1
       else if even f then f else f + 1)"
    by (simp add: round_half_even_def Let_def f_def)
  then have "round_half_even z = f \<and> z - of_int f \<le> 1 / 2 \<or>
     round_half_even z = f + 1 \<and> 1 / 2 \<le> z - of_int f"
    by (auto split: if_splits)
  with f that show ?thesis by blast
qed

lemma round_half_even_error: "\<bar>of_int (round_half_even z) - z\<bar> \<le> 1 / 2"
proof -
  obtain f where "of_int f \<le> z" "z < of_int f + 1"
    "round_half_even z = f \<and> z - of_int f \<le> 1 / 2 \<or>
     round_half_even z = f + 1 \<and> 1 / 2 \<le> z - of_int f"
    by (rule round_half_even_cases)
  then show ?thesis by (auto simp add: abs_if)
qed

lemma round_half_even_of_int [simp]: "round_half_even (of_int k) = k"
  by (simp add: round_half_even_def)

lemma round_half_even_zero [simp]: "round_half_even 0 = 0"
  using round_half_even_of_int [of 0] by simp

lemma round_half_even_sign:
  "0 \<le> z \<Longrightarrow> 0 \<le> round_half_even z" "z \<le> 0 \<Longrightarrow> round_half_even z \<le> 0"
proof -
  obtain f where f: "of_int f \<le> z" "z < of_int f + 1"
    "round_half_even z = f \<and> z - of_int f \<le> 1 / 2 \<or>
     round_half_even z = f + 1 \<and> 1 / 2 \<le> z - of_int f"
    by (rule round_half_even_cases)
  show "0 \<le> round_half_even z" if "0 \<le> z"
  proof -
    have "(0::rat) < of_int f + 1" using that f(2) by linarith
    then have "0 < f + 1" by (metis of_int_0_less_iff of_int_add of_int_1)
    then show ?thesis using f(3) by auto
  qed
  show "round_half_even z \<le> 0" if "z \<le> 0"
  proof -
    have "of_int f \<le> (0::rat)" using that f(1) by linarith
    then have f0: "f \<le> 0" by simp
    show ?thesis
    proof (cases "f = 0")
      case True
      then have "z = 0" using that f(1) by simp
      then show ?thesis by (metis of_int_0 round_half_even_of_int order_refl)
    next
      case False
      then show ?thesis using f0 f(3) by auto
    qed
  qed
qed

text \<open>
  The binade of a number and the spacing of the doubles around it.
\<close>

lemma binade_le:
  assumes "x \<noteq> 0"
  shows "2 powi binade x \<le> \<bar>x\<bar>"
proof (cases "1 \<le> \<bar>x\<bar>")
  case True
  then have n: "0 < \<lfloor>\<bar>x\<bar>\<rfloor>" by simp
  from bitlen_bounds [OF n] have "2 ^ nat (bitlen \<lfloor>\<bar>x\<bar>\<rfloor> - 1) \<le> \<lfloor>\<bar>x\<bar>\<rfloor>" by simp
  then have "(of_int (2 ^ nat (bitlen \<lfloor>\<bar>x\<bar>\<rfloor> - 1)) :: rat) \<le> of_int \<lfloor>\<bar>x\<bar>\<rfloor>"
    by (simp only: of_int_le_iff)
  also have "\<dots> \<le> \<bar>x\<bar>" by simp
  finally have "(2::rat) ^ nat (bitlen \<lfloor>\<bar>x\<bar>\<rfloor> - 1) \<le> \<bar>x\<bar>" by simp
  moreover have "0 \<le> bitlen \<lfloor>\<bar>x\<bar>\<rfloor> - 1"
    using n by (simp add: bitlen_alt_def)
  ultimately show ?thesis using True by (simp add: binade_def power_int_def)
next
  case False
  let ?n = "\<lceil>1 / \<bar>x\<bar>\<rceil> - 1"
  have x: "0 < \<bar>x\<bar>" "\<bar>x\<bar> < 1" using assms False by simp_all
  then have "1 < 1 / \<bar>x\<bar>" by simp
  then have n: "0 < ?n" by (simp add: less_ceiling_iff)
  from bitlen_bounds [OF n] have "?n < 2 ^ nat (bitlen ?n)" by simp
  then have "\<lceil>1 / \<bar>x\<bar>\<rceil> \<le> 2 ^ nat (bitlen ?n)" by simp
  then have "1 / \<bar>x\<bar> \<le> of_int (2 ^ nat (bitlen ?n))" by (simp only: ceiling_le_iff)
  then have "1 / \<bar>x\<bar> \<le> 2 ^ nat (bitlen ?n)" by simp
  then have "1 \<le> 2 ^ nat (bitlen ?n) * \<bar>x\<bar>" using x by (simp add: field_simps)
  then have "1 / 2 ^ nat (bitlen ?n) \<le> \<bar>x\<bar>" by (simp add: field_simps)
  moreover have "0 < bitlen ?n" using n by (simp add: bitlen_alt_def)
  ultimately show ?thesis
    using False by (simp add: binade_def power_int_def inverse_eq_divide power_one_over)
qed


lemma ulp_pos: "0 < ulp x"
  by (simp add: ulp_def zero_less_power_int)

lemma ulp_normal:
  assumes "x \<noteq> 0" "- 1022 \<le> binade x"
  shows "ulp x \<le> \<bar>x\<bar> / 2 ^ 52"
proof -
  have "ulp x = 2 powi (binade x + (- 52))"
    using assms by (simp add: ulp_def max_def)
  also have "\<dots> = 2 powi binade x * 2 powi (- 52)"
    by (rule power_int_add) simp
  also have "\<dots> = 2 powi binade x / 2 ^ 52"
    by (simp add: power_int_def inverse_eq_divide power_one_over)
  also have "\<dots> \<le> \<bar>x\<bar> / 2 ^ 52"
    using binade_le [OF assms(1)] by (simp add: divide_right_mono)
  finally show ?thesis .
qed

lemma DBL_TRUE_MIN_pos: "0 < DBL_TRUE_MIN"
  by (simp add: DBL_TRUE_MIN_def)

lemma ulp_subnormal:
  assumes "binade x < - 1022"
  shows "ulp x = DBL_TRUE_MIN"
  using assms
  by (simp add: ulp_def max_def power_int_def inverse_eq_divide power_one_over DBL_TRUE_MIN_def)

lemma ulp_grid: "\<exists>j::nat. ulp x = 2 ^ j * DBL_TRUE_MIN"
proof -
  define k where "k = max (binade x) (- 1022) - 52"
  have k: "0 \<le> k + 1074" by (simp add: k_def)
  have "ulp x = 2 powi ((k + 1074) + (- 1074))" by (simp add: ulp_def k_def)
  also have "\<dots> = 2 powi (k + 1074) * 2 powi (- 1074)"
    by (rule power_int_add) simp
  also have "2 powi (- 1074) = DBL_TRUE_MIN"
    by (simp add: power_int_def inverse_eq_divide power_one_over DBL_TRUE_MIN_def)
  also have "2 powi (k + 1074) = (2::rat) ^ nat (k + 1074)"
    using k by (simp add: power_int_def)
  finally show ?thesis by blast
qed

text \<open>
  A rounded result that is finite differs from the exact one by at most half the
  spacing: a relative error of \<open>2\<^sup>-\<^sup>5\<^sup>3\<close>, and no error beyond that for a multiple of
  \<open>DBL_TRUE_MIN\<close> (the difference or the integer multiple of doubles).
\<close>

lemma fl_Finite:
  assumes "fl x = Finite y"
  shows "y = of_int (round_half_even (x / ulp x)) * ulp x" "\<bar>y\<bar> \<le> DBL_MAX"
  using assms by (auto simp add: fl_def Let_def split: if_splits)

lemma fl_half_ulp:
  assumes "fl x = Finite y"
  shows "\<bar>y - x\<bar> \<le> ulp x / 2"
proof -
  have u: "0 < ulp x" by (rule ulp_pos)
  have "y - x = (of_int (round_half_even (x / ulp x)) - x / ulp x) * ulp x"
    using fl_Finite(1) [OF assms] u by (simp add: field_simps)
  then have "\<bar>y - x\<bar> = \<bar>of_int (round_half_even (x / ulp x)) - x / ulp x\<bar> * ulp x"
    using u by (simp add: abs_mult)
  also have "\<dots> \<le> 1 / 2 * ulp x"
    using u round_half_even_error [of "x / ulp x"] by (intro mult_right_mono) simp_all
  finally show ?thesis by simp
qed

lemma half_ulp_bound:
  assumes "x \<noteq> 0"
  shows "ulp x / 2 \<le> \<bar>x\<bar> / 2 ^ 53 \<or> ulp x = DBL_TRUE_MIN"
proof (cases "- 1022 \<le> binade x")
  case True
  with assms have "ulp x \<le> \<bar>x\<bar> / 2 ^ 52" by (intro ulp_normal)
  then have "ulp x / 2 \<le> (\<bar>x\<bar> / 2 ^ 52) / 2" by (rule divide_right_mono) simp
  also have "\<dots> = \<bar>x\<bar> / 2 ^ 53" by simp
  finally show ?thesis by simp
next
  case False
  then show ?thesis by (simp add: ulp_subnormal)
qed

lemma fl_error:
  assumes "fl x = Finite y"
  shows "\<bar>y - x\<bar> \<le> \<bar>x\<bar> / 2 ^ 53 + DBL_TRUE_MIN / 2"
proof (cases "x = 0")
  case True
  then show ?thesis using fl_Finite(1) [OF assms] DBL_TRUE_MIN_pos by simp
next
  case False
  have h: "\<bar>y - x\<bar> \<le> ulp x / 2" by (rule fl_half_ulp [OF assms])
  have p: "0 \<le> \<bar>x\<bar> / 2 ^ 53" "0 \<le> DBL_TRUE_MIN / 2"
    using DBL_TRUE_MIN_pos by simp_all
  from half_ulp_bound [OF False] show ?thesis
  proof
    assume "ulp x / 2 \<le> \<bar>x\<bar> / 2 ^ 53"
    with h p show ?thesis by linarith
  next
    assume "ulp x = DBL_TRUE_MIN"
    with h p show ?thesis by linarith
  qed
qed


lemma on_grid_iff: "on_grid x \<longleftrightarrow> (\<exists>k::int. x = of_int k * DBL_TRUE_MIN)"
proof
  assume "on_grid x"
  then have "x = of_int \<lfloor>x / DBL_TRUE_MIN\<rfloor> * DBL_TRUE_MIN" by (simp add: on_grid_def)
  then show "\<exists>k::int. x = of_int k * DBL_TRUE_MIN" ..
next
  assume "\<exists>k::int. x = of_int k * DBL_TRUE_MIN"
  then obtain k :: int where k: "x = of_int k * DBL_TRUE_MIN" ..
  have "x / DBL_TRUE_MIN = of_int k" unfolding k by (simp add: DBL_TRUE_MIN_def)
  then have "\<lfloor>x / DBL_TRUE_MIN\<rfloor> = k" by simp
  then show "on_grid x" by (simp add: on_grid_def k)
qed

lemma fl_error_grid:
  assumes "on_grid x" "fl x = Finite y"
  shows "\<bar>y - x\<bar> \<le> \<bar>x\<bar> / 2 ^ 53"
proof (cases "x = 0")
  case True
  then show ?thesis using fl_Finite(1) [OF assms(2)] by simp
next
  case False
  have h: "\<bar>y - x\<bar> \<le> ulp x / 2" by (rule fl_half_ulp [OF assms(2)])
  from half_ulp_bound [OF False] show ?thesis
  proof
    assume "ulp x / 2 \<le> \<bar>x\<bar> / 2 ^ 53"
    with h show ?thesis by linarith
  next
    assume u: "ulp x = DBL_TRUE_MIN"
    from assms(1) obtain k :: int where k: "x = of_int k * DBL_TRUE_MIN"
      by (auto simp add: on_grid_iff)
    have "x / ulp x = x / DBL_TRUE_MIN" by (simp only: u)
    also have "\<dots> = of_int k" using DBL_TRUE_MIN_pos by (simp add: k)
    finally have r: "x / ulp x = of_int k" .
    have "y = of_int (round_half_even (x / ulp x)) * ulp x"
      by (rule fl_Finite(1) [OF assms(2)])
    also have "round_half_even (x / ulp x) = k"
      by (simp only: r round_half_even_of_int)
    also have "ulp x = DBL_TRUE_MIN" by (rule u)
    finally have "y = x" by (simp only: k)
    then show ?thesis by simp
  qed
qed

lemma fl_on_grid:
  assumes "fl x = Finite y"
  shows "on_grid y"
proof -
  obtain j :: nat where j: "ulp x = 2 ^ j * DBL_TRUE_MIN" using ulp_grid by blast
  have "y = of_int (round_half_even (x / ulp x) * 2 ^ j) * DBL_TRUE_MIN"
    using fl_Finite(1) [OF assms] by (simp add: j)
  then show ?thesis unfolding on_grid_iff by blast
qed

lemma on_grid_diff: "on_grid x \<Longrightarrow> on_grid y \<Longrightarrow> on_grid (x - y)"
proof -
  assume "on_grid x" "on_grid y"
  then obtain k l :: int where "x = of_int k * DBL_TRUE_MIN" "y = of_int l * DBL_TRUE_MIN"
    by (auto simp add: on_grid_iff)
  then have "x - y = of_int (k - l) * DBL_TRUE_MIN" by (simp add: algebra_simps)
  then show ?thesis unfolding on_grid_iff by blast
qed

lemma on_grid_mult: "on_grid x \<Longrightarrow> on_grid (of_int i * x)"
proof -
  assume "on_grid x"
  then obtain k :: int where "x = of_int k * DBL_TRUE_MIN"
    by (auto simp add: on_grid_iff)
  then have "of_int i * x = of_int (i * k) * DBL_TRUE_MIN" by simp
  then show ?thesis unfolding on_grid_iff by blast
qed

text \<open>
  Rounding keeps the sign, and a result of magnitude at most \<open>2\<^sup>1\<^sup>0\<^sup>2\<^sup>3\<close> is finite.
\<close>

lemma fl_sign:
  assumes "fl x = Finite y"
  shows "0 \<le> x \<Longrightarrow> 0 \<le> y" "x \<le> 0 \<Longrightarrow> y \<le> 0"
proof -
  have u: "0 < ulp x" by (rule ulp_pos)
  note y = fl_Finite(1) [OF assms]
  show "0 \<le> y" if "0 \<le> x"
  proof -
    have "0 \<le> x / ulp x" using that u by simp
    then have "0 \<le> round_half_even (x / ulp x)" by (rule round_half_even_sign)
    then show ?thesis using u by (simp add: y)
  qed
  show "y \<le> 0" if "x \<le> 0"
  proof -
    have "x / ulp x \<le> 0" using that u by (simp add: divide_le_0_iff)
    then have "round_half_even (x / ulp x) \<le> 0" by (rule round_half_even_sign)
    then show ?thesis using u by (simp add: y mult_le_0_iff)
  qed
qed

lemma fl_zero [simp]: "fl 0 = Finite 0"
  by (simp add: fl_def DBL_MAX_def)

lemma ulp_le_one_or: "ulp x \<le> \<bar>x\<bar> \<or> ulp x \<le> 1"
proof (cases "x \<noteq> 0 \<and> - 1022 \<le> binade x")
  case True
  then have "ulp x \<le> \<bar>x\<bar> / 2 ^ 52" by (intro ulp_normal) simp_all
  also have "\<dots> \<le> \<bar>x\<bar> / 1" by (intro divide_left_mono) simp_all
  finally show ?thesis by simp
next
  case False
  have "binade (0::rat) = 0" by (simp add: binade_def bitlen_alt_def)
  with False have "max (binade x) (- 1022) - 52 \<le> 0" by (auto simp add: max_def)
  then have "(2::rat) powi (max (binade x) (- 1022) - 52) \<le> 2 powi 0"
    by (intro power_int_increasing) simp_all
  then have "ulp x \<le> 1" by (simp add: ulp_def)
  then show ?thesis by simp
qed

lemma fl_finite:
  assumes "\<bar>x\<bar> \<le> 2 ^ 1023"
  shows "\<exists>y. fl x = Finite y"
proof -
  define y where "y = of_int (round_half_even (x / ulp x)) * ulp x"
  have u: "0 < ulp x" by (rule ulp_pos)
  have "y - x = (of_int (round_half_even (x / ulp x)) - x / ulp x) * ulp x"
    using u by (simp add: y_def field_simps)
  then have "\<bar>y - x\<bar> = \<bar>of_int (round_half_even (x / ulp x)) - x / ulp x\<bar> * ulp x"
    using u by (simp add: abs_mult)
  also have "\<dots> \<le> 1 / 2 * ulp x"
    using u round_half_even_error [of "x / ulp x"] by (intro mult_right_mono) simp_all
  finally have d: "\<bar>y - x\<bar> \<le> ulp x / 2" by simp
  have "ulp x \<le> 2 ^ 1023"
    using ulp_le_one_or [of x] assms
    by (auto intro: order_trans [where y = "\<bar>x\<bar>"] order_trans [where y = 1])
  with d have "\<bar>y - x\<bar> \<le> 2 ^ 1023 / 2" by linarith
  with assms have "\<bar>y\<bar> \<le> 2 ^ 1023 + 2 ^ 1023 / 2" by linarith
  also have "\<dots> \<le> DBL_MAX" by (simp add: DBL_MAX_def)
  finally show ?thesis by (simp add: fl_def Let_def y_def)
qed


text \<open>
  The three roundings of \<open>L * A / B\<close> (the difference \<open>A\<close>, the product, the
  quotient; \<open>B\<close> is rounded too) move the result by at most \<open>2\<^sup>-\<^sup>1\<^sup>9\<close>, for
  \<open>0 \<le> A \<le> B\<close> and \<open>0 \<le> L \<le> 2\<^sup>3\<^sup>1\<close>.
\<close>

lemma rel_error_interval:
  fixes x y u :: rat
  assumes "\<bar>y - x\<bar> \<le> \<bar>x\<bar> * u" "0 \<le> x"
  shows "x * (1 - u) \<le> y" "y \<le> x * (1 + u)"
  using assms by (simp_all add: abs_le_iff algebra_simps)

lemma three_roundings:
  fixes A B a' b' P T Q L :: rat
  defines "u \<equiv> 1 / 2 ^ 53"
  assumes A: "0 \<le> A" "A \<le> B" "0 < B" and L: "0 \<le> L" "L \<le> 2 ^ 31"
    and a': "A * (1 - u) \<le> a'" "a' \<le> A * (1 + u)"
    and b': "B * (1 - u) \<le> b'" "b' \<le> B * (1 + u)"
    and P: "L * a' * (1 - u) \<le> P" "P \<le> L * a' * (1 + u)"
    and Q: "P / b' * (1 - u) - DBL_TRUE_MIN / 2 \<le> Q" "Q \<le> P / b' * (1 + u) + DBL_TRUE_MIN / 2"
  shows "\<bar>Q - L * A / B\<bar> \<le> 1 / 2 ^ 19"
proof -
  define lo hi :: rat where "lo = 1 - u" and "hi = 1 + u"
  have lohi: "0 < lo" "lo \<le> 1" "1 \<le> hi" "0 < hi"
    by (simp_all add: lo_def hi_def u_def)
  note a' = a' [folded lo_def hi_def] and b' = b' [folded lo_def hi_def]
    and P = P [folded lo_def hi_def] and Q = Q [folded lo_def hi_def]
  define q where "q = L * A / B"
  have q: "0 \<le> q" "q \<le> L"
  proof -
    show "0 \<le> q" using A L by (simp add: q_def)
    have "L * A \<le> L * B" using A L by (intro mult_left_mono)
    then show "q \<le> L" using A by (simp add: q_def divide_le_eq)
  qed
  have a0: "0 \<le> a'" using a'(1) A lohi by (meson mult_nonneg_nonneg order_trans less_imp_le)
  have b0: "0 < B * lo" using A lohi by simp
  have bpos: "0 < b'" using b0 b'(1) by linarith
  have LA: "0 \<le> L * A" using A L by simp
  have P_hi: "P \<le> L * A * hi * hi"
  proof -
    have "L * a' \<le> L * (A * hi)" using a'(2) L by (intro mult_left_mono)
    then have "L * a' * hi \<le> L * (A * hi) * hi" using lohi by (intro mult_right_mono) simp_all
    with P(2) show ?thesis by (simp add: mult.assoc)
  qed
  have P_lo: "L * A * lo * lo \<le> P"
  proof -
    have "L * (A * lo) \<le> L * a'" using a'(1) L by (intro mult_left_mono)
    then have "L * (A * lo) * lo \<le> L * a' * lo" using lohi by (intro mult_right_mono) simp_all
    with P(1) show ?thesis by (simp add: mult.assoc)
  qed
  have P0: "0 \<le> P" using P_lo LA lohi
    by (meson mult_nonneg_nonneg order_trans less_imp_le)
  have T_hi: "P / b' \<le> q * (hi * hi / lo)"
  proof -
    have "0 \<le> L * A * hi * hi" using P0 P_hi by linarith
    then have "P / b' \<le> (L * A * hi * hi) / (B * lo)"
      using P_hi b0 b'(1) by (intro frac_le)
    also have "\<dots> = q * (hi * hi / lo)" by (simp add: q_def)
    finally show ?thesis .
  qed
  have T_lo: "q * (lo * lo / hi) \<le> P / b'"
  proof -
    have "(L * A * lo * lo) / (B * hi) \<le> P / b'"
      using P0 P_lo bpos b'(2) by (intro frac_le)
    moreover have "(L * A * lo * lo) / (B * hi) = q * (lo * lo / hi)" by (simp add: q_def)
    ultimately show ?thesis by simp
  qed
  have T0: "0 \<le> P / b'" using P0 bpos by simp
  have Q_hi: "Q \<le> q * (hi * hi / lo) * hi + DBL_TRUE_MIN / 2"
  proof -
    have "P / b' * hi \<le> q * (hi * hi / lo) * hi"
      using T_hi lohi by (intro mult_right_mono) simp_all
    with Q(2) show ?thesis by linarith
  qed
  have Q_lo: "q * (lo * lo / hi) * lo - DBL_TRUE_MIN / 2 \<le> Q"
  proof -
    have "q * (lo * lo / hi) * lo \<le> P / b' * lo"
      using T_lo lohi by (intro mult_right_mono) simp_all
    with Q(1) show ?thesis by linarith
  qed
  define kh kl where "kh = hi * hi / lo * hi - 1" and "kl = 1 - lo * lo / hi * lo"
  define bound :: rat where "bound = 1 / 2 ^ 19"
  have k_hi: "0 \<le> kh" "2 ^ 31 * kh + DBL_TRUE_MIN / 2 \<le> bound"
    by (simp_all add: kh_def bound_def lo_def hi_def u_def DBL_TRUE_MIN_def)
  have k_lo: "0 \<le> kl" "2 ^ 31 * kl + DBL_TRUE_MIN / 2 \<le> bound"
    by (simp_all add: kl_def bound_def lo_def hi_def u_def DBL_TRUE_MIN_def)
  have up: "Q - q \<le> bound"
  proof -
    have "Q - q \<le> q * kh + DBL_TRUE_MIN / 2"
      using Q_hi by (simp add: kh_def algebra_simps)
    moreover have "q * kh \<le> 2 ^ 31 * kh"
      using q L k_hi(1) by (intro mult_right_mono) simp_all
    ultimately show ?thesis using k_hi(2) by linarith
  qed
  have down: "q - Q \<le> bound"
  proof -
    have "q - Q \<le> q * kl + DBL_TRUE_MIN / 2"
      using Q_lo by (simp add: kl_def algebra_simps)
    moreover have "q * kl \<le> 2 ^ 31 * kl"
      using q L k_lo(1) by (intro mult_right_mono) simp_all
    ultimately show ?thesis using k_lo(2) by linarith
  qed
  have "\<bar>Q - q\<bar> \<le> bound" using up down by (simp add: abs_le_iff)
  then show ?thesis unfolding q_def bound_def .
qed


text \<open>
  An integer of magnitude below \<open>2\<^sup>5\<^sup>3\<close> is a double.
\<close>

lemma binade_less:
  assumes "x \<noteq> 0" "\<bar>x\<bar> < 2 ^ n"
  shows "binade x < int n"
proof (rule ccontr)
  assume "\<not> binade x < int n"
  then have "(2::rat) powi int n \<le> 2 powi binade x"
    by (intro power_int_increasing) simp_all
  with binade_le [OF assms(1)] have "(2::rat) ^ n \<le> \<bar>x\<bar>" by simp
  with assms(2) show False by simp
qed

lemma fl_of_int:
  assumes "\<bar>i\<bar> < 2 ^ 53"
  shows "fl (of_int i) = Finite (of_int i)"
proof (cases "i = 0")
  case True
  then show ?thesis by simp
next
  case False
  define x :: rat where "x = of_int i"
  have x: "x \<noteq> 0" "\<bar>x\<bar> < 2 ^ 53"
  proof -
    show "x \<noteq> 0" using False by (simp add: x_def)
    have "\<bar>x\<bar> = of_int \<bar>i\<bar>" by (simp add: x_def)
    also have "\<dots> < of_int (2 ^ 53)" using assms by (simp only: of_int_less_iff)
    finally show "\<bar>x\<bar> < 2 ^ 53" by simp
  qed
  define k where "k = 52 - max (binade x) (- 1022)"
  have "binade x < 53" using binade_less [OF x] by simp
  then have k: "0 \<le> k" by (simp add: k_def)
  have "ulp x = 2 powi (- k)" by (simp add: ulp_def k_def)
  also have "\<dots> = 1 / 2 ^ nat k"
    using k by (simp add: power_int_def inverse_eq_divide power_one_over)
  finally have u: "ulp x = 1 / 2 ^ nat k" .
  have "x / ulp x = of_int (i * 2 ^ nat k)" unfolding u by (simp add: x_def)
  then have "round_half_even (x / ulp x) = i * 2 ^ nat k"
    by (simp only: round_half_even_of_int)
  then have "of_int (round_half_even (x / ulp x)) * ulp x = of_int (i * 2 ^ nat k) * ulp x"
    by simp
  also have "\<dots> = x" unfolding u by (simp add: x_def)
  finally have "of_int (round_half_even (x / ulp x)) * ulp x = x" .
  moreover have "\<bar>x\<bar> \<le> DBL_MAX"
  proof -
    have "(2::rat) ^ 53 \<le> DBL_MAX" by (simp add: DBL_MAX_def)
    with x(2) show ?thesis by linarith
  qed
  ultimately show ?thesis
    unfolding x_def [symmetric] by (simp add: fl_def Let_def)
qed

text \<open>
  The value of \<open>len * (cur - min) / (max - min)\<close> in double arithmetic, for doubles
  \<open>min < max\<close> with \<open>min \<le> cur \<le> max\<close>: finite, of the sign of \<open>len\<close>, and within
  \<open>2\<^sup>-\<^sup>1\<^sup>9\<close> of the exact quotient.
\<close>

lemma is_double_on_grid: "is_double x \<Longrightarrow> on_grid x"
  unfolding is_double_def by (rule fl_on_grid)


lemma fl_rel_interval:
  assumes "on_grid x" "fl x = Finite y" "0 \<le> x"
  shows "x * (1 - 1 / 2 ^ 53) \<le> y" "y \<le> x * (1 + 1 / 2 ^ 53)" "0 \<le> y"
proof -
  have "\<bar>y - x\<bar> \<le> \<bar>x\<bar> * (1 / 2 ^ 53)"
    using fl_error_grid [OF assms(1,2)] by simp
  from rel_error_interval [OF this assms(3)]
  show "x * (1 - 1 / 2 ^ 53) \<le> y" "y \<le> x * (1 + 1 / 2 ^ 53)" .
  show "0 \<le> y" using fl_sign(1) [OF assms(2,3)] .
qed

lemma abs_rel_interval:
  fixes x y e :: rat
  assumes "\<bar>y - x\<bar> \<le> e"
  shows "\<bar>x\<bar> - e \<le> \<bar>y\<bar>" "\<bar>y\<bar> \<le> \<bar>x\<bar> + e"
  using assms by (simp_all add: abs_if split: if_splits)

lemma fill_expr_value:
  assumes d: "is_double a" "is_double b" "is_double c"
    and o: "a < b" "a \<le> c" "c \<le> b"
    and l: "\<bar>len\<bar> \<le> 2 ^ 31"
    and r: "b - a \<le> 2 ^ 990"
  obtains q where "fill_expr len (Finite c) (Finite a) (Finite b) = Finite q"
    and "\<bar>q - of_int len * (c - a) / (b - a)\<bar> \<le> 1 / 2 ^ 19"
    and "0 \<le> len \<Longrightarrow> 0 \<le> q" and "len \<le> 0 \<Longrightarrow> q \<le> 0" and "c = a \<Longrightarrow> q = 0"
proof -
  define u :: rat where "u = 1 / 2 ^ 53"
  have u: "0 < u" "u \<le> 1" "1 - u \<ge> 1 / 2" "1 + u \<le> 2" by (simp_all add: u_def)
  define A B where "A = c - a" and "B = b - a"
  define L :: rat where "L = of_int \<bar>len\<bar>"
  have AB: "0 \<le> A" "A \<le> B" "0 < B" "B \<le> 2 ^ 990"
    using o r by (simp_all add: A_def B_def)
  have L: "0 \<le> L" "L \<le> 2 ^ 31"
  proof -
    show "0 \<le> L" by (simp add: L_def)
    have "L \<le> of_int (2 ^ 31)" unfolding L_def using l by (simp only: of_int_le_iff)
    then show "L \<le> 2 ^ 31" by simp
  qed
  have gA: "on_grid A" and gB: "on_grid B"
    unfolding A_def B_def using d by (simp_all add: on_grid_diff is_double_on_grid)
  have big: "(2::rat) ^ 990 \<le> 2 ^ 1023" by simp
  obtain a' where a': "fl A = Finite a'"
    using fl_finite [of A] AB big by (auto simp add: abs_if)
  obtain b' where b': "fl B = Finite b'"
    using fl_finite [of B] AB big by (auto simp add: abs_if)
  note ia = fl_rel_interval [OF gA a' AB(1), folded u_def]
  note ib = fl_rel_interval [OF gB b' less_imp_le [OF AB(3)], folded u_def]
  have bpos: "0 < b'"
  proof -
    have "0 < B * (1 - u)" using AB u by simp
    with ib(1) show ?thesis by linarith
  qed
  have il: "int_to_double len = Finite (of_int len)"
  proof -
    have "\<bar>len\<bar> < 2 ^ 53" using l by simp
    then show ?thesis unfolding int_to_double_def by (rule fl_of_int)
  qed
  define X where "X = of_int len * a'"
  have aX: "\<bar>X\<bar> = L * a'" using ia(3) by (simp add: X_def L_def abs_mult)
  have a2: "a' \<le> 2 ^ 991"
  proof -
    have "A * (1 + u) \<le> 2 ^ 990 * 2"
      using AB u by (intro mult_mono) simp_all
    with ia(2) show ?thesis by simp
  qed
  have "L * a' \<le> 2 ^ 31 * 2 ^ 991" using L a2 ia(3) by (intro mult_mono) simp_all
  also have "\<dots> \<le> (2::rat) ^ 1023" by simp
  finally have Xb: "\<bar>X\<bar> \<le> 2 ^ 1023" by (simp only: aX)
  obtain p where p: "fl X = Finite p" using fl_finite [OF Xb] by blast
  have gX: "on_grid X" unfolding X_def by (intro on_grid_mult fl_on_grid [OF a'])
  have "\<bar>p - X\<bar> \<le> \<bar>X\<bar> * u" using fl_error_grid [OF gX p] by (simp add: u_def)
  from abs_rel_interval [OF this]
  have ip: "L * a' * (1 - u) \<le> \<bar>p\<bar>" "\<bar>p\<bar> \<le> L * a' * (1 + u)"
    by (simp_all add: aX algebra_simps)
  define T where "T = p / b'"
  have aT: "\<bar>T\<bar> = \<bar>p\<bar> / b'" using bpos by (simp add: T_def)
  have Tb: "\<bar>T\<bar> \<le> 2 ^ 1023"
  proof -
    have "A * (1 + u) \<le> B * 2" using AB u by (intro mult_mono) simp_all
    with ia(2) have aB: "a' \<le> B * 2" by linarith
    have "L * a' * (1 + u) \<le> 2 ^ 31 * (B * 2) * 2"
      using aB L u ia(3) AB by (intro mult_mono) simp_all
    with ip(2) have "\<bar>p\<bar> \<le> 2 ^ 33 * B" by simp
    moreover have "B / 2 \<le> b'"
    proof -
      have "B * (1 / 2) \<le> B * (1 - u)" using AB u by (intro mult_left_mono) simp_all
      with ib(1) show ?thesis by simp
    qed
    moreover have "0 < B / 2" using AB by simp
    ultimately have "\<bar>p\<bar> / b' \<le> (2 ^ 33 * B) / (B / 2)"
      using AB by (intro frac_le) simp_all
    also have "\<dots> = 2 ^ 34" using AB by simp
    also have "\<dots> \<le> (2::rat) ^ 1023" by simp
    finally show ?thesis by (simp only: aT)
  qed
  obtain q where q: "fl T = Finite q" using fl_finite [OF Tb] by blast
  have "\<bar>q - T\<bar> \<le> \<bar>T\<bar> * u + DBL_TRUE_MIN / 2"
    using fl_error [OF q] by (simp add: u_def)
  from abs_rel_interval [OF this]
  have "\<bar>T\<bar> * (1 - u) - DBL_TRUE_MIN / 2 \<le> \<bar>q\<bar>"
    "\<bar>q\<bar> \<le> \<bar>T\<bar> * (1 + u) + DBL_TRUE_MIN / 2"
    by (simp_all add: algebra_simps)
  then have iq: "\<bar>p\<bar> / b' * (1 - u) - DBL_TRUE_MIN / 2 \<le> \<bar>q\<bar>"
    "\<bar>q\<bar> \<le> \<bar>p\<bar> / b' * (1 + u) + DBL_TRUE_MIN / 2"
    by (simp_all only: aT)
  have val: "fill_expr len (Finite c) (Finite a) (Finite b) = Finite q"
    using bpos by (simp add: fill_expr_def il a' b' p q A_def [symmetric] B_def [symmetric]
        X_def [symmetric] T_def [symmetric])
  have mag: "\<bar>\<bar>q\<bar> - L * A / B\<bar> \<le> 1 / 2 ^ 19"
    using AB(1-3) L ia(1,2) ib(1,2) ip iq
    unfolding u_def by (rule three_roundings)
  have pos: "0 \<le> q" if "0 \<le> len"
  proof -
    have "0 \<le> X" using that ia(3) by (simp add: X_def)
    then have "0 \<le> p" by (rule fl_sign(1) [OF p])
    then have "0 \<le> T" using bpos by (simp add: T_def)
    then show ?thesis by (rule fl_sign(1) [OF q])
  qed
  have neg: "q \<le> 0" if "len \<le> 0"
  proof -
    have "X \<le> 0" using that ia(3) by (simp add: X_def mult_le_0_iff)
    then have "p \<le> 0" by (rule fl_sign(2) [OF p])
    then have "T \<le> 0" using bpos by (simp add: T_def divide_le_0_iff)
    then show ?thesis by (rule fl_sign(2) [OF q])
  qed
  have err: "\<bar>q - of_int len * (c - a) / (b - a)\<bar> \<le> 1 / 2 ^ 19"
  proof (cases "0 \<le> len")
    case True
    with pos have "\<bar>q\<bar> = q" "L = of_int len" by (simp_all add: L_def)
    with mag show ?thesis by (simp add: A_def B_def)
  next
    case False
    then have "len \<le> 0" by simp
    with neg have "\<bar>q\<bar> = - q" "L = - of_int len" by (simp_all add: L_def)
    with mag have "\<bar>- q - (- of_int len) * A / B\<bar> \<le> 1 / 2 ^ 19" by simp
    also have "- q - (- of_int len) * A / B = - (q - of_int len * A / B)" by simp
    finally show ?thesis by (simp only: abs_minus A_def B_def)
  qed
  have zero: "q = 0" if "c = a"
  proof -
    from that have "A = 0" by (simp add: A_def)
    with a' have "a' = 0" by simp
    then have "X = 0" by (simp add: X_def)
    with p have "p = 0" by simp
    then have "T = 0" by (simp add: T_def)
    with q show ?thesis by simp
  qed
  from that [OF val err pos neg zero] show ?thesis .
qed

text \<open>
  The binade is the only exponent \<open>e\<close> with \<open>2\<^sup>e \<le> \<bar>x\<bar> < 2\<^sup>e\<^sup>+\<^sup>1\<close>.
\<close>

lemma binade_less_succ:
  assumes "x \<noteq> 0"
  shows "\<bar>x\<bar> < 2 powi (binade x + 1)"
proof (cases "1 \<le> \<bar>x\<bar>")
  case True
  then have n: "0 < \<lfloor>\<bar>x\<bar>\<rfloor>" by simp
  have b: "0 \<le> bitlen \<lfloor>\<bar>x\<bar>\<rfloor>" using n by (simp add: bitlen_alt_def)
  from bitlen_bounds [OF n] have "\<lfloor>\<bar>x\<bar>\<rfloor> + 1 \<le> 2 ^ nat (bitlen \<lfloor>\<bar>x\<bar>\<rfloor>)" by simp
  then have "(of_int (\<lfloor>\<bar>x\<bar>\<rfloor> + 1) :: rat) \<le> of_int (2 ^ nat (bitlen \<lfloor>\<bar>x\<bar>\<rfloor>))"
    by (simp only: of_int_le_iff)
  moreover have "\<bar>x\<bar> < of_int (\<lfloor>\<bar>x\<bar>\<rfloor> + 1)" by linarith
  ultimately have "\<bar>x\<bar> < of_int (2 ^ nat (bitlen \<lfloor>\<bar>x\<bar>\<rfloor>))" by linarith
  then have "\<bar>x\<bar> < 2 ^ nat (bitlen \<lfloor>\<bar>x\<bar>\<rfloor>)" by simp
  then show ?thesis using True b by (simp add: binade_def power_int_def)
next
  case False
  let ?n = "\<lceil>1 / \<bar>x\<bar>\<rceil> - 1"
  have x: "0 < \<bar>x\<bar>" "\<bar>x\<bar> < 1" using assms False by simp_all
  then have "1 < 1 / \<bar>x\<bar>" by simp
  then have n: "0 < ?n" by (simp add: less_ceiling_iff)
  have b: "0 < bitlen ?n" using n by (simp add: bitlen_alt_def)
  from bitlen_bounds [OF n] have "2 ^ nat (bitlen ?n - 1) \<le> ?n" by simp
  then have "(of_int (2 ^ nat (bitlen ?n - 1)) :: rat) \<le> of_int ?n"
    by (simp only: of_int_le_iff)
  moreover have "of_int ?n < 1 / \<bar>x\<bar>" by linarith
  ultimately have "of_int (2 ^ nat (bitlen ?n - 1)) < 1 / \<bar>x\<bar>" by linarith
  then have "2 ^ nat (bitlen ?n - 1) < 1 / \<bar>x\<bar>" by simp
  then have "2 ^ nat (bitlen ?n - 1) * \<bar>x\<bar> < 1" using x by (simp add: field_simps)
  then have "\<bar>x\<bar> < 1 / 2 ^ nat (bitlen ?n - 1)" by (simp add: field_simps)
  moreover have "(2::rat) powi (- bitlen ?n + 1) = 1 / 2 ^ nat (bitlen ?n - 1)"
  proof -
    have "- bitlen ?n + 1 = - int (nat (bitlen ?n - 1))" using b by simp
    then show ?thesis
      by (simp only: power_int_minus power_int_of_nat inverse_eq_divide)
  qed
  ultimately show ?thesis using False by (simp add: binade_def)
qed

lemma binade_unique:
  assumes "2 powi e \<le> \<bar>x\<bar>" "\<bar>x\<bar> < 2 powi (e + 1)"
  shows "binade x = e"
proof -
  have "(0::rat) < 2 powi e" by (simp add: zero_less_power_int)
  with assms(1) have "0 < \<bar>x\<bar>" by linarith
  then have x: "x \<noteq> 0" by simp
  have "\<not> binade x < e"
  proof
    assume "binade x < e"
    then have "(2::rat) powi (binade x + 1) \<le> 2 powi e"
      by (intro power_int_increasing) simp_all
    with binade_less_succ [OF x] assms(1) show False by linarith
  qed
  moreover have "\<not> e < binade x"
  proof
    assume "e < binade x"
    then have "(2::rat) powi (e + 1) \<le> 2 powi binade x"
      by (intro power_int_increasing) simp_all
    with binade_le [OF x] assms(2) show False by linarith
  qed
  ultimately show ?thesis by simp
qed

lemma round_half_even_eq:
  assumes "\<bar>z - of_int k\<bar> < 1 / 2 \<or> \<bar>z - of_int k\<bar> = 1 / 2 \<and> even k"
  shows "round_half_even z = k"
proof -
  define f where "f = \<lfloor>z\<rfloor>"
  have f: "of_int f \<le> z" "z < of_int f + 1" unfolding f_def by linarith+
  have r: "round_half_even z =
      (if z - of_int f < 1 / 2 then f else if 1 / 2 < z - of_int f then f + 1
       else if even f then f else f + 1)"
    by (simp add: round_half_even_def Let_def f_def)
  have "k = f \<or> k = f + 1"
  proof -
    have "of_int k < z + 1" "z - 1 < of_int k" using assms by (auto simp add: abs_if split: if_splits)
    with f have "(of_int k :: rat) < of_int (f + 2)" "(of_int (f - 1) :: rat) < of_int k"
      by simp_all
    then have "k < f + 2" "f - 1 < k" by (simp_all only: of_int_less_iff)
    then show ?thesis by linarith
  qed
  then show ?thesis
  proof
    assume k: "k = f"
    with assms f have "z - of_int f < 1 / 2 \<or> z - of_int f = 1 / 2 \<and> even f"
      by (auto simp add: abs_if split: if_splits)
    then show ?thesis unfolding r k by auto
  next
    assume k: "k = f + 1"
    with assms f have "1 / 2 < z - of_int f \<or> z - of_int f = 1 / 2 \<and> odd f"
      by (auto simp add: abs_if split: if_splits)
    then show ?thesis unfolding r k by auto
  qed
qed

text \<open>
  The rounding of a given number, from its binade \<open>e\<close> and the integer \<open>k\<close> nearest to
  it in units of the spacing.
\<close>

lemma fl_eval:
  assumes e: "2 powi e \<le> \<bar>x\<bar>" "\<bar>x\<bar> < 2 powi (e + 1)" "- 1022 \<le> e"
    and k: "\<bar>x / 2 powi (e - 52) - of_int k\<bar> < 1 / 2 \<or>
            \<bar>x / 2 powi (e - 52) - of_int k\<bar> = 1 / 2 \<and> even k"
    and y: "y = of_int k * 2 powi (e - 52)"
    and m: "\<bar>y\<bar> \<le> 2 ^ 1023"
  shows "fl x = Finite y"
proof -
  have "binade x = e" using e(1,2) by (rule binade_unique)
  then have "ulp x = 2 powi (e - 52)" using e(3) by (simp add: ulp_def max_def)
  moreover have "round_half_even (x / 2 powi (e - 52)) = k"
    using k by (rule round_half_even_eq)
  moreover have "\<not> DBL_MAX < \<bar>y\<bar>"
  proof -
    have "(2::rat) ^ 1023 \<le> DBL_MAX" by (simp add: DBL_MAX_def)
    with m show ?thesis by linarith
  qed
  ultimately show ?thesis by (simp add: fl_def Let_def y)
qed

lemma fl_numeral [simp]:
  "numeral k < (9007199254740992::int) \<Longrightarrow> fl (numeral k) = Finite (numeral k)"
  using fl_of_int [of "numeral k"] by simp

lemma fl_neg_numeral [simp]:
  "numeral k < (9007199254740992::int) \<Longrightarrow> fl (- numeral k) = Finite (- numeral k)"
  using fl_of_int [of "- numeral k"] by simp

lemma fl_one [simp]: "fl 1 = Finite 1"
  using fl_of_int [of 1] by simp

text \<open>A result of magnitude \<open>2\<^sup>1\<^sup>0\<^sup>2\<^sup>4\<close> or more overflows.\<close>

lemma fl_overflow:
  assumes "2 ^ 1024 \<le> \<bar>x\<bar>"
  shows "fl x = (if 0 < x then Pos_Inf else Neg_Inf)"
proof -
  have x0: "x \<noteq> 0" using assms by auto
  define e where "e = binade x"
  have e: "1024 \<le> e"
  proof (rule ccontr)
    assume "\<not> 1024 \<le> e"
    then have "(2::rat) powi (e + 1) \<le> 2 powi 1024"
      by (intro power_int_increasing) simp_all
    moreover have "\<bar>x\<bar> < 2 powi (e + 1)" unfolding e_def using x0 by (rule binade_less_succ)
    moreover have "(2::rat) powi 1024 = 2 ^ 1024" by simp
    ultimately show False using assms by linarith
  qed
  define u :: rat where "u = 2 powi (e - 52)"
  have u: "ulp x = u" using e by (simp add: ulp_def u_def e_def max_def)
  have u0: "0 < u" by (simp add: u_def zero_less_power_int)
  have "(2::rat) powi 972 \<le> 2 powi (e - 52)"
    using e by (intro power_int_increasing) simp_all
  then have u972: "2 ^ 972 \<le> u" by (simp add: u_def)
  define k where "k = round_half_even (x / u)"
  have "2 powi e = 2 powi (52 + (e - 52))" by simp
  also have "\<dots> = (2::rat) powi 52 * 2 powi (e - 52)" by (rule power_int_add) simp
  finally have "(2::rat) powi e = 2 ^ 52 * u" by (simp add: u_def)
  moreover have "2 powi e \<le> \<bar>x\<bar>" unfolding e_def using x0 by (rule binade_le)
  ultimately have "2 ^ 52 * u \<le> \<bar>x\<bar>" by simp
  then have "2 ^ 52 \<le> \<bar>x\<bar> / u" using u0 by (simp add: pos_le_divide_eq)
  then have z: "2 ^ 52 \<le> \<bar>x / u\<bar>" using u0 by simp
  have "\<bar>of_int k - x / u\<bar> \<le> 1 / 2" unfolding k_def by (rule round_half_even_error)
  with z have "(2::rat) ^ 52 - 1 / 2 \<le> \<bar>of_int k\<bar>" by linarith
  then have "(of_int (2 ^ 52 - 1) :: rat) < of_int \<bar>k\<bar>" by simp
  then have "2 ^ 52 - 1 < \<bar>k\<bar>" by (simp only: of_int_less_iff)
  then have "2 ^ 52 \<le> \<bar>k\<bar>" by simp
  then have "(of_int (2 ^ 52) :: rat) \<le> of_int \<bar>k\<bar>" by (simp only: of_int_le_iff)
  then have k52: "(2::rat) ^ 52 \<le> \<bar>of_int k\<bar>" by simp
  have "(2::rat) ^ 52 * 2 ^ 972 \<le> \<bar>of_int k\<bar> * u"
    using k52 u972 by (intro mult_mono) simp_all
  moreover have "(2::rat) ^ 52 * 2 ^ 972 = 2 ^ 1024" by (simp flip: power_add)
  moreover have "\<bar>of_int k * u\<bar> = \<bar>of_int k\<bar> * u" using u0 by (simp add: abs_mult)
  moreover have "DBL_MAX < 2 ^ 1024" by (simp add: DBL_MAX_def)
  ultimately have "DBL_MAX < \<bar>of_int k * u\<bar>" by linarith
  then show ?thesis by (simp add: fl_def Let_def u k_def)
qed

subsection \<open>The fill\<close>

lemma scaled_nonneg:
  fixes cur mn mx :: rat
  assumes "mn < mx" "mn \<le> cur" "cur \<le> mx" "0 \<le> l"
  shows "0 \<le> of_int l * (cur - mn) / (mx - mn)"
    and "of_int l * (cur - mn) / (mx - mn) \<le> of_int l"
proof -
  let ?r = "(cur - mn) / (mx - mn)"
  have r: "0 \<le> ?r" "?r \<le> 1" using assms by simp_all
  have l: "(0::rat) \<le> of_int l" using assms by simp
  have "0 \<le> of_int l * ?r" using l r by (intro mult_nonneg_nonneg)
  then show "0 \<le> of_int l * (cur - mn) / (mx - mn)"
    by (simp only: times_divide_eq_right)
  have "of_int l * ?r \<le> of_int l * 1" using l r by (intro mult_left_mono)
  then show "of_int l * (cur - mn) / (mx - mn) \<le> of_int l"
    by (simp only: times_divide_eq_right mult_1_right)
qed

lemma floor_near:
  fixes q x :: rat
  assumes "\<bar>q - x\<bar> < 1"
  shows "\<bar>\<lfloor>q\<rfloor> - \<lfloor>x\<rfloor>\<bar> \<le> 1"
proof -
  define f g where "f = \<lfloor>q\<rfloor>" and "g = \<lfloor>x\<rfloor>"
  have "of_int f \<le> q" "q < of_int f + 1" "of_int g \<le> x" "x < of_int g + 1"
    unfolding f_def g_def by linarith+
  with assms have "(of_int f :: rat) < of_int g + 2" "(of_int g :: rat) < of_int f + 2"
    by linarith+
  then have "(of_int f :: rat) < of_int (g + 2)" "(of_int g :: rat) < of_int (f + 2)"
    by simp_all
  then have "f < g + 2" "g < f + 2" by (simp_all only: of_int_less_iff)
  then show ?thesis unfolding f_def g_def by linarith
qed

text \<open>
  The expression of the fill for a non-negative remaining width: its value \<open>q\<close> is
  finite and within \<open>2\<^sup>-\<^sup>1\<^sup>9\<close> of the exact quotient, and the conversion to \<open>int\<close>
  gives \<open>\<lfloor>q\<rfloor>\<close>.
\<close>

lemma fill_count_fill:
  assumes d: "is_double a" "is_double b" "is_double c"
    and o: "a < b" "a \<le> c" "c \<le> b" and r: "b - a \<le> 2 ^ 990"
    and l: "0 \<le> l" "l \<le> INT_MAX"
  obtains q where "fill_expr l (Finite c) (Finite a) (Finite b) = Finite q" "0 \<le> q"
    "fill_count l (Finite c) (Finite a) (Finite b) = Inr \<lfloor>q\<rfloor>"
    "0 \<le> \<lfloor>q\<rfloor>" "\<lfloor>q\<rfloor> \<le> l"
    "\<bar>\<lfloor>q\<rfloor> - \<lfloor>of_int l * (c - a) / (b - a)\<rfloor>\<bar> \<le> 1"
    "c = a \<longrightarrow> \<lfloor>q\<rfloor> = 0" "c = b \<longrightarrow> l - 1 \<le> \<lfloor>q\<rfloor>"
proof -
  define x where "x = of_int l * (c - a) / (b - a)"
  have l31: "\<bar>l\<bar> \<le> 2 ^ 31" using l by (simp add: INT_MAX_def)
  obtain q where q: "fill_expr l (Finite c) (Finite a) (Finite b) = Finite q"
    "\<bar>q - x\<bar> \<le> 1 / 2 ^ 19" "0 \<le> q" "c = a \<Longrightarrow> q = 0"
    unfolding x_def using fill_expr_value [OF d o l31 r] l(1) by metis
  have x: "0 \<le> x" "x \<le> of_int l" unfolding x_def using o l(1) by (rule scaled_nonneg)+
  have near: "\<bar>q - x\<bar> < 1"
  proof -
    have "(1::rat) / 2 ^ 19 < 1" by simp
    with q(2) show ?thesis by linarith
  qed
  have lo: "0 \<le> \<lfloor>q\<rfloor>" using q(3) by simp
  have "q < of_int l + 1" using near x(2) by linarith
  then have hi: "\<lfloor>q\<rfloor> \<le> l" by (simp add: floor_le_iff)
  have fc: "fill_count l (Finite c) (Finite a) (Finite b) = Inr \<lfloor>q\<rfloor>"
    using q(1,3) lo hi l(2) by (simp add: fill_count_def INT_MIN_def del: zero_le_floor)
  have fl: "\<bar>\<lfloor>q\<rfloor> - \<lfloor>of_int l * (c - a) / (b - a)\<rfloor>\<bar> \<le> 1"
    using near unfolding x_def by (rule floor_near)
  have z: "c = a \<longrightarrow> \<lfloor>q\<rfloor> = 0" using q(4) by auto
  have full: "c = b \<longrightarrow> l - 1 \<le> \<lfloor>q\<rfloor>"
  proof
    assume "c = b"
    then have "x = of_int l" using o(1) by (simp add: x_def)
    with near have "of_int (l - 1) \<le> q" by simp
    then show "l - 1 \<le> \<lfloor>q\<rfloor>" by (simp only: le_floor_iff)
  qed
  show ?thesis using that [OF q(1) q(3) fc lo hi fl z full] .
qed

text \<open>
  For a negative remaining width the value is not positive, and the conversion gives
  an \<open>int\<close> between the remaining width and zero.
\<close>

lemma fill_count_negative:
  assumes d: "is_double a" "is_double b" "is_double c"
    and o: "a < b" "a \<le> c" "c \<le> b" and r: "b - a \<le> 2 ^ 990"
    and l: "l \<le> 0" "INT_MIN \<le> l"
  shows "\<exists>nc. fill_count l (Finite c) (Finite a) (Finite b) = Inr nc \<and> l \<le> nc \<and> nc \<le> 0"
proof -
  define x where "x = of_int l * (c - a) / (b - a)"
  have l31: "\<bar>l\<bar> \<le> 2 ^ 31" using l by (simp add: INT_MIN_def)
  obtain q where q: "fill_expr l (Finite c) (Finite a) (Finite b) = Finite q"
    "\<bar>q - x\<bar> \<le> 1 / 2 ^ 19" "q \<le> 0"
    unfolding x_def using fill_expr_value [OF d o l31 r] l(1) by metis
  have "0 \<le> of_int (- l) * (c - a) / (b - a)"
    and "of_int (- l) * (c - a) / (b - a) \<le> of_int (- l)"
    using o l(1) by (simp_all only: scaled_nonneg neg_0_le_iff_le)
  then have x: "0 \<le> - x" "- x \<le> of_int (- l)" by (simp_all add: x_def)
  have near: "\<bar>q - x\<bar> < 1"
  proof -
    have "(1::rat) / 2 ^ 19 < 1" by simp
    with q(2) show ?thesis by linarith
  qed
  define nc where "nc = - \<lfloor>- q\<rfloor>"
  have "0 \<le> - q" using q(3) by simp
  then have lo: "0 \<le> \<lfloor>- q\<rfloor>" by simp
  have "- q < of_int (- l) + 1" using near x(2) by linarith
  then have hi: "\<lfloor>- q\<rfloor> \<le> - l" by (simp only: floor_le_iff)
  have b: "l \<le> nc" "nc \<le> 0" using lo hi by (simp_all add: nc_def)
  have rg: "INT_MIN \<le> nc \<and> nc \<le> INT_MAX" using b l by (simp add: INT_MAX_def)
  have "double_to_int (Finite q) = Inr nc"
  proof (cases "q < 0")
    case True
    then have "double_to_int (Finite q) =
        (if INT_MIN \<le> nc \<and> nc \<le> INT_MAX then Inr nc else Inl Bad_Conversion)"
      by (simp add: nc_def Let_def)
    also have "\<dots> = Inr nc" using rg by simp
    finally show ?thesis .
  next
    case False
    with q(3) have z: "q = 0" by simp
    have "nc = 0" unfolding nc_def z by simp
    then show ?thesis
      unfolding z by (simp add: INT_MIN_def INT_MAX_def)
  qed
  then have "fill_count l (Finite c) (Finite a) (Finite b) = Inr nc"
    by (simp only: fill_count_def q(1))
  with b show ?thesis by blast
qed

lemma meter_buf_fill:
  assumes fc: "fill_count rem cur mn mx = Inr nc" "0 \<le> nc" "nc \<le> rem"
    and rem: "rem = width - (int (length cap) + 1)"
    and w: "width \<le> 1020"
  shows "meter_buf cap cur mn mx width =
           Inr (CR # cap @ ''['' @ replicate (nat nc) CHR ''|'' @
                replicate (nat (rem - (nc + 1))) CHR ''-'' @ '']'' @ [CR])"
proof -
  have r: "0 \<le> rem" "rem \<le> INT_MAX" using fc(2,3) rem w by (simp_all add: INT_MAX_def)
  have f: "fill_count (width - (int (length cap) + 1)) cur mn mx = Inr nc"
    using fc(1) by (simp only: rem)
  have l1: "INT_MIN \<le> width - (int (length cap) + 1)"
    "width - (int (length cap) + 1) \<le> INT_MAX"
    using rem r unfolding INT_MIN_def INT_MAX_def by linarith+
  have n1: "INT_MIN < nc" "nc + 1 \<le> INT_MAX"
    using fc(2,3) rem w unfolding INT_MIN_def INT_MAX_def by linarith+
  have l2: "INT_MIN < width - (int (length cap) + 1) - (nc + 1)"
    "width - (int (length cap) + 1) - (nc + 1) \<le> INT_MAX"
    using fc(2,3) rem w unfolding INT_MIN_def INT_MAX_def by linarith+
  have fits: "int (length cap) + max 0 nc +
      max 0 (width - (int (length cap) + 1) - (nc + 1)) + 5 \<le> BUF_SIZE"
    using fc(2,3) rem w unfolding BUF_SIZE_def max_def by simp
  show ?thesis
    unfolding rem using f l1 n1 l2 fits by (rule meter_buf_closed)
qed

lemma meter_buf_empty:
  assumes nc: "fill_count rem cur mn mx = Inr nc" "rem \<le> nc" "nc \<le> 0"
    and rem: "rem = width - (int (length cap) + 1)" "rem < 0" "INT_MIN + 2 \<le> rem"
    and c: "length cap \<le> 1019"
  shows "meter_buf cap cur mn mx width = Inr (CR # cap @ ''[]'' @ [CR])"
proof -
  have "meter_buf cap cur mn mx width =
          Inr (CR # cap @ ''['' @ replicate (nat nc) CHR ''|'' @
               replicate (nat (width - (int (length cap) + 1) - (nc + 1))) CHR ''-'' @
               '']'' @ [CR])"
    using nc rem c
    by (intro meter_buf_closed) (simp_all add: INT_MIN_def INT_MAX_def BUF_SIZE_def)
  then show ?thesis using nc rem by simp
qed

subsection \<open>The line as a format\<close>

lemma plain_line:
  "ch \<noteq> CR \<Longrightarrow> ch \<noteq> CHR ''['' \<Longrightarrow> ch \<noteq> CHR '']'' \<Longrightarrow> ch \<noteq> CHR ''|'' \<Longrightarrow>
   ch \<noteq> CHR ''-'' \<Longrightarrow> ch \<notin> set cap \<Longrightarrow>
   ch \<notin> set (CR # cap @ ''['' @ replicate a CHR ''|'' @ replicate b CHR ''-'' @
              '']'' @ [CR])"
  by auto

lemma percent_free_line:
  "CHR ''%'' \<notin> set cap \<Longrightarrow>
   CHR ''%'' \<notin> set (CR # cap @ ''['' @ replicate a CHR ''|'' @ replicate b CHR ''-'' @
                     '']'' @ [CR])"
  by (rule plain_line) (simp_all add: CR_def)

lemma zero_free_line:
  "CHR 0x00 \<notin> set cap \<Longrightarrow>
   CHR 0x00 \<notin> set (CR # cap @ ''['' @ replicate a CHR ''|'' @ replicate b CHR ''-'' @
                     '']'' @ [CR])"
  by (rule plain_line) (simp_all add: CR_def)

lemma c_string_zero_free: "CHR 0x00 \<notin> set t \<Longrightarrow> c_string t = t"
  by (auto simp add: c_string_def takeWhile_eq_all_conv)

lemma progress_meter_plain:
  assumes "check_params_loaded E s = (ok, s1)" "ok \<noteq> 0"
    and "SHOW_PROGRESS_MESSAGES E (world s1) \<noteq> 0"
    and "copies_plain_text E"
    and "meter_buf (vformat E str args) cur mn mx width = Inr line"
    and "CHR ''%'' \<notin> set line" "CHR 0x00 \<notin> set line"
  shows "progress_meter E cur mn mx width str args s =
           Returns (emit [Write ERR_STREAM line, Flush_All] s1)"
proof -
  have "vformat E (c_string line) [] = line"
    using assms(4,6,7) by (simp add: copies_plain_text_def c_string_zero_free)
  then show ?thesis
    using assms by (simp add: progress_meter_after_gate)
qed

text \<open>
  The line written by an enabled call in closed form, for a caption without percent
  sign and zero byte.
\<close>

lemma progress_meter_line:
  assumes g: "check_params_loaded E s = (ok, s1)" "ok \<noteq> 0"
      "SHOW_PROGRESS_MESSAGES E (world s1) \<noteq> 0" "copies_plain_text E"
    and cap: "cap = vformat E str args" "CHR ''%'' \<notin> set cap" "CHR 0x00 \<notin> set cap"
    and m: "meter_buf cap cur mn mx width =
              Inr (CR # cap @ ''['' @ replicate i CHR ''|'' @ replicate j CHR ''-'' @
                   '']'' @ [CR])"
  shows "progress_meter E cur mn mx width str args s =
           Returns (emit
             [Write ERR_STREAM
                (CR # cap @ ''['' @ replicate i CHR ''|'' @ replicate j CHR ''-'' @
                 '']'' @ [CR]),
              Flush_All] s1)"
  using g m percent_free_line [OF cap(2)] zero_free_line [OF cap(3)]
  unfolding cap(1) by (rule progress_meter_plain)

subsection \<open>The example environment\<close>

lemma c_format_plain: "CHR ''%'' \<notin> set t \<Longrightarrow> c_format t as = t"
  by (induction t as rule: c_format.induct) auto

lemma copies_plain_text_file_env: "copies_plain_text file_env"
  by (simp add: copies_plain_text_def file_env_def c_format_plain)

lemma c_format_load_failed_msg:
  "c_format load_failed_msg [Arg_Str ''default.parameters'', Arg_Str ''default.parameters''] =
     load_failed_text"
  by (simp add: load_failed_msg_def load_failed_text_def NL_def TAB_def)

lemma c_format_still_failed_msg:
  "c_format still_failed_msg [] = still_failed_msg"
  by (simp add: still_failed_msg_def NL_def TAB_def)

lemma start_simps:
  "g_params_inited (start p w d g) = 0"
  "world (start p w d g) = \<lparr>present = p, writable = w, show_debug = d, show_progress = g\<rparr>"
  "trace (start p w d g) = []"
  by (simp_all add: start_def)

lemma file_env_simps:
  "vformat file_env = c_format"
  "SHOW_DEBUG_MESSAGES file_env = show_debug"
  "SHOW_PROGRESS_MESSAGES file_env = show_progress"
  by (simp_all add: file_env_def)

lemma no_file_env_fails: "fst (Load_Params_File no_file_env f w) \<noteq> 0"
  by (simp add: no_file_env_def)

lemma gate_file_present:
  "check_params_loaded file_env (start True w d g) =
     (1, \<lparr>g_params_inited = 1,
          world = \<lparr>present = True, writable = w, show_debug = d, show_progress = g\<rparr>,
          trace = [Load_Call ''default.parameters'' 0]\<rparr>)"
  by (simp add: check_params_loaded_def call_Load_Params_File_def emit_def file_env_def
      start_def)

lemma gate_file_missing:
  "check_params_loaded file_env (start False False d g) =
     (0, \<lparr>g_params_inited = 0,
          world = \<lparr>present = False, writable = False, show_debug = d, show_progress = g\<rparr>,
          trace =
            [Load_Call ''default.parameters'' 1,
             Write Stdout ''--- Warning: '', Write Stdout load_failed_text, Flush_All,
             Print_Params_Call ''default.parameters'',
             Load_Call ''default.parameters'' 1,
             Write Stdout ''--- Warning: '', Write Stdout still_failed_msg, Flush_All]\<rparr>)"
  by (simp add: check_params_loaded_def call_Load_Params_File_def
      call_Print_Params_File_def warning_def emit_def Let_def ERR_STREAM_def
      c_format_load_failed_msg c_format_still_failed_msg file_env_def start_def)

lemma gate_file_written:
  "check_params_loaded file_env (start False True d g) =
     (1, \<lparr>g_params_inited = 1,
          world = \<lparr>present = True, writable = True, show_debug = d, show_progress = g\<rparr>,
          trace =
            [Load_Call ''default.parameters'' 1,
             Write Stdout ''--- Warning: '', Write Stdout load_failed_text, Flush_All,
             Print_Params_Call ''default.parameters'',
             Load_Call ''default.parameters'' 0]\<rparr>)"
  by (simp add: check_params_loaded_def call_Load_Params_File_def
      call_Print_Params_File_def warning_def emit_def Let_def ERR_STREAM_def
      c_format_load_failed_msg file_env_def start_def)

lemma gate_file_enabled:
  "check_params_loaded file_env (start True False 0 1) =
     (1, \<lparr>g_params_inited = 1,
          world = \<lparr>present = True, writable = False, show_debug = 0, show_progress = 1\<rparr>,
          trace = [Load_Call ''default.parameters'' 0]\<rparr>)"
  "SHOW_PROGRESS_MESSAGES file_env (world \<lparr>g_params_inited = 1,
          world = \<lparr>present = True, writable = False, show_debug = 0, show_progress = 1\<rparr>,
          trace = [Load_Call ''default.parameters'' 0]\<rparr>) \<noteq> 0"
  by (simp_all add: gate_file_present file_env_simps)

lemmas run_simps =
  debug_def progress_def progress_meter_def check_params_loaded_def
  call_Load_Params_File_def call_Print_Params_File_def warning_def emit_def Let_def
  file_env_def start_def ERR_STREAM_def
  c_format_load_failed_msg c_format_still_failed_msg

lemmas meter_simps =
  progress_meter_def gate_file_present file_env_simps meter_buf_def
  sprintf_at_def int_result_def fill_count_def put_run.simps c_string_def
  BUF_SIZE_def INT_MIN_def INT_MAX_def emit_def ERR_STREAM_def CR_def

subsection \<open>Example values\<close>

lemma is_double_zero: "is_double 0"
  by (simp add: is_double_def)

lemma is_double_numeral: "numeral k < (9007199254740992::int) \<Longrightarrow> is_double (numeral k)"
  by (simp add: is_double_def)

lemma fl_huge: "fl huge = Finite huge"
  by (rule fl_eval [where e = 1023 and k = "2 ^ 52"]) (simp_all add: huge_def)

lemma is_double_huge: "is_double huge" "is_double (- huge)"
proof -
  show "is_double huge" by (simp add: is_double_def fl_huge)
  have "fl (- huge) = Finite (- huge)"
    by (rule fl_eval [where e = 1023 and k = "- (2 ^ 52)"]) (simp_all add: huge_def)
  then show "is_double (- huge)" by (simp add: is_double_def)
qed

text \<open>
  With \<open>min = -2\<^sup>1\<^sup>0\<^sup>2\<^sup>3\<close>, \<open>max = 2\<^sup>1\<^sup>0\<^sup>2\<^sup>3\<close> and \<open>current = 0\<close> both the product and
  \<open>max - min\<close> overflow, and the quotient of two infinities is NaN.
\<close>

lemma fill_expr_overflow:
  assumes "2 \<le> \<bar>l\<bar>" "\<bar>l\<bar> < 2 ^ 53"
  shows "fill_expr l (Finite 0) (Finite (- huge)) (Finite huge) = NaN"
proof -
  have i: "int_to_double l = Finite (of_int l)"
    unfolding int_to_double_def using assms(2) by (rule fl_of_int)
  have s: "dsub (Finite 0) (Finite (- huge)) = Finite huge"
    by (simp add: fl_huge)
  have "(2::rat) \<le> \<bar>of_int l\<bar>"
  proof -
    have "(of_int 2 :: rat) \<le> of_int \<bar>l\<bar>" using assms(1) by (simp only: of_int_le_iff)
    then show ?thesis by simp
  qed
  then have "2 * huge \<le> \<bar>of_int l\<bar> * huge"
    by (intro mult_right_mono) (simp_all add: huge_def)
  moreover have "2 * huge = 2 ^ 1024" by (simp add: huge_def)
  moreover have "\<bar>of_int l * huge\<bar> = \<bar>of_int l\<bar> * huge" by (simp add: abs_mult huge_def)
  ultimately have "2 ^ 1024 \<le> \<bar>of_int l * huge\<bar>" by simp
  then have p: "fl (of_int l * huge) = (if 0 < of_int l * huge then Pos_Inf else Neg_Inf)"
    by (rule fl_overflow)
  have "(2::rat) ^ 1024 \<le> \<bar>huge - - huge\<bar>" by (simp add: huge_def)
  then have "fl (huge - - huge) = (if 0 < huge - - huge then Pos_Inf else Neg_Inf)"
    by (rule fl_overflow)
  moreover have "0 < huge - - huge" by (simp add: huge_def)
  ultimately have r: "dsub (Finite huge) (Finite (- huge)) = Pos_Inf" by simp
  show ?thesis
    unfolding fill_expr_def i s r by (simp add: p)
qed

text \<open>
  With \<open>current = max = 3192525855999671 / 2\<^sup>3\<^sup>5\<close>, \<open>min = 0\<close> and the remaining width
  3, the product is rounded down and the quotient is the double just below 3.
\<close>

lemma fill_expr_rounded_down:
  "is_double (3192525855999671 / 34359738368) \<and>
   fill_expr 3 (Finite (3192525855999671 / 34359738368)) (Finite 0)
       (Finite (3192525855999671 / 34359738368)) =
     Finite (6755399441055743 / 2251799813685248)"
proof -
  have a: "fl (3192525855999671 / 34359738368) = Finite (3192525855999671 / 34359738368)"
    by (rule fl_eval [where e = 16 and k = 6385051711999342]) simp_all
  have p: "fl (3 * (3192525855999671 / 34359738368)) =
             Finite (4788788783999506 / 17179869184)"
    by (rule fl_eval [where e = 18 and k = 4788788783999506]) simp_all
  have q: "fl ((4788788783999506 / 17179869184) / (3192525855999671 / 34359738368)) =
             Finite (6755399441055743 / 2251799813685248)"
    by (rule fl_eval [where e = 1 and k = 6755399441055743]) simp_all
  show ?thesis
    using a p q by (simp add: fill_expr_def int_to_double_def is_double_def)
qed

lemma floor_rounded_down:
  "\<lfloor>6755399441055743 / 2251799813685248 :: rat\<rfloor> = 2"
  by (rule floor_unique) simp_all

section \<open>The properties of the specification\<close>

subsection \<open>debug and progress\<close>

text \<open>
  C1, as the code has it. \<open>debug\<close> first runs the gate. After the gate's own events
  it writes the formatted message, with nothing before it, exactly when the gate returned
  non-zero and the debug flag is non-zero; in every case it then flushes and returns.
  When the gate fails (which it can only do while it has never succeeded), \<open>debug\<close>
  and \<open>progress\<close> write no message, flush and return; the text that reached the stream
  during the call is the two warnings of the gate, and with the flush after each warning
  the call has flushed three times.
\<close>

theorem debug_emits_iff_gate_and_flag:
  assumes "check_params_loaded E s = (ok, s1)"
  shows "debug E str args s =
           Returns (emit ((if ok \<noteq> 0 \<and> SHOW_DEBUG_MESSAGES E (world s1) \<noteq> 0
                           then [Write ERR_STREAM (vformat E str args)] else []) @
                          [Flush_All]) s1) \<and>
         (ok = 0 \<longrightarrow>
            g_params_inited s = 0 \<and>
            debug E str args s = Returns (emit [Flush_All] s1) \<and>
            progress E str args s = Returns (emit [Flush_All] s1) \<and>
            written ERR_STREAM (trace (emit [Flush_All] s1)) =
              written ERR_STREAM (trace s) @
              ''--- Warning: '' @
              vformat E load_failed_msg
                [Arg_Str ''default.parameters'', Arg_Str ''default.parameters''] @
              ''--- Warning: '' @ vformat E still_failed_msg [] \<and>
            flushes (trace (emit [Flush_All] s1)) = flushes (trace s) + 3)"
  using assms gate_failed_text [of E s s1]
  by (simp add: debug_after_gate progress_after_gate written_append flushes_append)

theorem debug_emits_iff_gate_and_flag_witness:
  "debug file_env ''scale=%s'' [Arg_Str ''2''] (start True False 1 0) =
     Returns \<lparr>g_params_inited = 1,
       world = \<lparr>present = True, writable = False, show_debug = 1, show_progress = 0\<rparr>,
       trace = [Load_Call ''default.parameters'' 0, Write Stdout ''scale=2'', Flush_All]\<rparr> \<and>
   debug file_env ''scale=%s'' [Arg_Str ''2''] (start True False 0 1) =
     Returns \<lparr>g_params_inited = 1,
       world = \<lparr>present = True, writable = False, show_debug = 0, show_progress = 1\<rparr>,
       trace = [Load_Call ''default.parameters'' 0, Flush_All]\<rparr> \<and>
   written Stdout (trace (final (debug file_env ''scale=%s'' [Arg_Str ''2'']
       (start False False 1 1)))) =
     ''--- Warning: '' @ load_failed_text @ ''--- Warning: '' @ still_failed_msg \<and>
   written Stdout (trace (final (progress file_env ''scale=%s'' [Arg_Str ''2'']
       (start False False 1 1)))) =
     ''--- Warning: '' @ load_failed_text @ ''--- Warning: '' @ still_failed_msg \<and>
   flushes (trace (final (debug file_env ''scale=%s'' [Arg_Str ''2'']
       (start False False 1 1)))) = 3"
  using debug_emits_iff_gate_and_flag
          [OF gate_file_present [of False 1 0], of "''scale=%s''" "[Arg_Str ''2'']"]
        debug_emits_iff_gate_and_flag
          [OF gate_file_present [of False 0 1], of "''scale=%s''" "[Arg_Str ''2'']"]
        debug_emits_iff_gate_and_flag
          [OF gate_file_missing [of 1 1], of "''scale=%s''" "[Arg_Str ''2'']"]
  by (simp add: emit_def ERR_STREAM_def file_env_simps start_simps
      c_format_load_failed_msg c_format_still_failed_msg)

text \<open>
  C1 as stated fails: with no parameters file and no way to write one the gate has never
  succeeded, and a call of \<open>debug\<close> leaves the two warnings of the gate on the stream.
\<close>

theorem debug_writes_gate_warnings_counterexample:
  "g_params_inited (start False False 1 1) = 0 \<and>
   fst (check_params_loaded file_env (start False False 1 1)) = 0 \<and>
   debug file_env ''hello'' [] (start False False 1 1) =
     Returns \<lparr>g_params_inited = 0,
       world = \<lparr>present = False, writable = False, show_debug = 1, show_progress = 1\<rparr>,
       trace =
         [Load_Call ''default.parameters'' 1,
          Write Stdout ''--- Warning: '', Write Stdout load_failed_text, Flush_All,
          Print_Params_Call ''default.parameters'',
          Load_Call ''default.parameters'' 1,
          Write Stdout ''--- Warning: '', Write Stdout still_failed_msg, Flush_All,
          Flush_All]\<rparr> \<and>
   written Stdout (trace (final (debug file_env ''hello'' [] (start False False 1 1)))) \<noteq> []"
  by (simp add: debug_def gate_file_missing emit_def start_simps)

subsection \<open>check_params_loaded\<close>

text \<open>
  C2. On a call with the gate not yet initialised (\<open>_g_params_inited == 0\<close>), with
  \<open>r1\<close> the result of the first load and \<open>r2\<close> the result of a load after the
  defaults have been written:
  \<^item> if the first load succeeds the flag is set and the result is 1, after that one load;
  \<^item> if it fails, a warning is written and flushed, the defaults are written, and the load
    is tried once more; when that succeeds the flag is set and the result is 1;
  \<^item> when the second load fails too, a second warning is written and flushed, the result
    is 0 and the flag stays 0, so the next call meets the same uninitialised gate.
  The loader is called once in the first case and twice in the other two.
\<close>

theorem check_params_loaded_first_use:
  assumes "g_params_inited s = 0"
    and "Load_Params_File E ''default.parameters'' (world s) = (r1, w1)"
    and "Load_Params_File E ''default.parameters''
           (Print_Params_File E ''default.parameters'' w1) = (r2, w2)"
  shows "check_params_loaded E s =
     (if r1 = 0 then
        (1, s\<lparr>g_params_inited := 1, world := w1,
              trace := trace s @ [Load_Call ''default.parameters'' r1]\<rparr>)
      else if r2 = 0 then
        (1, s\<lparr>g_params_inited := 1, world := w2,
              trace := trace s @
                [Load_Call ''default.parameters'' r1,
                 Write ERR_STREAM ''--- Warning: '',
                 Write ERR_STREAM (vformat E load_failed_msg
                   [Arg_Str ''default.parameters'', Arg_Str ''default.parameters'']),
                 Flush_All,
                 Print_Params_Call ''default.parameters'',
                 Load_Call ''default.parameters'' r2]\<rparr>)
      else
        (0, s\<lparr>world := w2,
              trace := trace s @
                [Load_Call ''default.parameters'' r1,
                 Write ERR_STREAM ''--- Warning: '',
                 Write ERR_STREAM (vformat E load_failed_msg
                   [Arg_Str ''default.parameters'', Arg_Str ''default.parameters'']),
                 Flush_All,
                 Print_Params_Call ''default.parameters'',
                 Load_Call ''default.parameters'' r2,
                 Write ERR_STREAM ''--- Warning: '',
                 Write ERR_STREAM (vformat E still_failed_msg []),
                 Flush_All]\<rparr>)) \<and>
     g_params_inited (snd (check_params_loaded E s)) = (if r1 = 0 \<or> r2 = 0 then 1 else 0) \<and>
     load_calls (trace (snd (check_params_loaded E s))) =
       load_calls (trace s) + (if r1 = 0 then 1 else 2)"
  using assms by (simp add: gate_first_use load_calls_append)

theorem check_params_loaded_first_use_witness:
  "check_params_loaded file_env (start True False 0 0) =
     (1, \<lparr>g_params_inited = 1,
          world = \<lparr>present = True, writable = False, show_debug = 0, show_progress = 0\<rparr>,
          trace = [Load_Call ''default.parameters'' 0]\<rparr>) \<and>
   check_params_loaded file_env (start False True 0 0) =
     (1, \<lparr>g_params_inited = 1,
          world = \<lparr>present = True, writable = True, show_debug = 0, show_progress = 0\<rparr>,
          trace =
            [Load_Call ''default.parameters'' 1,
             Write Stdout ''--- Warning: '',
             Write Stdout
               (''Make sure default.parameters is in the calling directory'' @ [NL] @
                ''Could not load parameters from file: default.parameters'' @ [NL] @
                ''Writing defaults to current directory.'' @ [NL] @
                [TAB] @ ''Trying again...'' @ [NL]),
             Flush_All,
             Print_Params_Call ''default.parameters'',
             Load_Call ''default.parameters'' 0]\<rparr>) \<and>
   check_params_loaded file_env (start False False 0 0) =
     (0, \<lparr>g_params_inited = 0,
          world = \<lparr>present = False, writable = False, show_debug = 0, show_progress = 0\<rparr>,
          trace =
            [Load_Call ''default.parameters'' 1,
             Write Stdout ''--- Warning: '',
             Write Stdout
               (''Make sure default.parameters is in the calling directory'' @ [NL] @
                ''Could not load parameters from file: default.parameters'' @ [NL] @
                ''Writing defaults to current directory.'' @ [NL] @
                [TAB] @ ''Trying again...'' @ [NL]),
             Flush_All,
             Print_Params_Call ''default.parameters'',
             Load_Call ''default.parameters'' 1,
             Write Stdout ''--- Warning: '',
             Write Stdout ([TAB] @ ''Still couldn't load parameters from file.'' @ [NL]),
             Flush_All]\<rparr>)"
proof -
  let ?f = "''default.parameters''"
  let ?w = "\<lambda>p w. \<lparr>present = p, writable = w, show_debug = 0, show_progress = 0\<rparr>"
  have i: "g_params_inited (start p w 0 0) = 0" for p w
    by (simp add: start_def)
  have a1: "Load_Params_File file_env ?f (world (start True False 0 0)) = (0, ?w True False)"
    by (simp add: file_env_def start_def)
  have a2: "Load_Params_File file_env ?f (Print_Params_File file_env ?f (?w True False)) =
              (0, ?w True False)"
    by (simp add: file_env_def)
  have b1: "Load_Params_File file_env ?f (world (start False True 0 0)) = (1, ?w False True)"
    by (simp add: file_env_def start_def)
  have b2: "Load_Params_File file_env ?f (Print_Params_File file_env ?f (?w False True)) =
              (0, ?w True True)"
    by (simp add: file_env_def)
  have c1: "Load_Params_File file_env ?f (world (start False False 0 0)) = (1, ?w False False)"
    by (simp add: file_env_def start_def)
  have c2: "Load_Params_File file_env ?f (Print_Params_File file_env ?f (?w False False)) =
              (1, ?w False False)"
    by (simp add: file_env_def)
  have fmt: "vformat file_env = c_format"
    by (simp add: file_env_def)
  have m1: "c_format load_failed_msg [Arg_Str ?f, Arg_Str ?f] =
      ''Make sure default.parameters is in the calling directory'' @ [NL] @
      ''Could not load parameters from file: default.parameters'' @ [NL] @
      ''Writing defaults to current directory.'' @ [NL] @
      [TAB] @ ''Trying again...'' @ [NL]"
    by (simp add: load_failed_msg_def NL_def TAB_def)
  have m2: "c_format still_failed_msg [] =
      [TAB] @ ''Still couldn't load parameters from file.'' @ [NL]"
    by (simp add: still_failed_msg_def NL_def TAB_def)
  show ?thesis
    using check_params_loaded_first_use [OF i a1 a2]
      check_params_loaded_first_use [OF i b1 b2]
      check_params_loaded_first_use [OF i c1 c2]
    by (simp add: fmt m1 m2 ERR_STREAM_def) (simp add: start_def)
qed

text \<open>
  C3, as the code has it. Once the flag is set the gate returns 1 and leaves the state
  as it is, and no sequence of calls of \<open>debug\<close>, \<open>progress\<close> and
  \<open>progress_meter\<close> calls the loader again or changes the flag or the collaborators'
  state. From a start with the flag clear and no load done, at every point of every such
  sequence the number of loads that succeeded is one when the flag is set and zero when it
  is not: the loader succeeds at most once in the life of the process. While every load
  fails, every such sequence runs to its end with the flag still clear, and each of its
  calls has run the loader twice.
\<close>

theorem gate_idempotent_once_initialised:
  "(g_params_inited s \<noteq> 0 \<longrightarrow>
      check_params_loaded E s = (1, s) \<and>
      load_calls (trace (final (run_calls E cs s))) = load_calls (trace s) \<and>
      world (final (run_calls E cs s)) = world s \<and>
      g_params_inited (final (run_calls E cs s)) = g_params_inited s) \<and>
   (g_params_inited s = 0 \<and> successful_loads (trace s) = 0 \<longrightarrow>
      successful_loads (trace (final (run_calls E cs s))) =
        (if g_params_inited (final (run_calls E cs s)) = 0 then 0 else 1)) \<and>
   (g_params_inited s = 0 \<and> (\<forall>f w. fst (Load_Params_File E f w) \<noteq> 0) \<longrightarrow>
      (\<exists>s'. run_calls E cs s = Returns s' \<and> g_params_inited s' = 0 \<and>
            load_calls (trace s') = load_calls (trace s) + 2 * length cs))"
proof -
  have "g_params_inited s \<noteq> 0 \<longrightarrow>
      check_params_loaded E s = (1, s) \<and>
      load_calls (trace (final (run_calls E cs s))) = load_calls (trace s) \<and>
      world (final (run_calls E cs s)) = world s \<and>
      g_params_inited (final (run_calls E cs s)) = g_params_inited s"
    using run_calls_initialised [of s E cs] by (simp add: gate_initialised)
  moreover have "g_params_inited s = 0 \<and> successful_loads (trace s) = 0 \<longrightarrow>
      successful_loads (trace (final (run_calls E cs s))) =
        (if g_params_inited (final (run_calls E cs s)) = 0 then 0 else 1)"
    using run_calls_one_success [of s E cs] by (simp add: one_success_def)
  moreover have "g_params_inited s = 0 \<and> (\<forall>f w. fst (Load_Params_File E f w) \<noteq> 0) \<longrightarrow>
      (\<exists>s'. run_calls E cs s = Returns s' \<and> g_params_inited s' = 0 \<and>
            load_calls (trace s') = load_calls (trace s) + 2 * length cs)"
    using run_calls_all_fail [of E s cs] by blast
  ultimately show ?thesis by (intro conjI)
qed

theorem gate_idempotent_once_initialised_witness:
  "check_params_loaded file_env loaded = (1, loaded) \<and>
   load_calls (trace (final (run_calls file_env
       [Debug ''a'' [], Progress ''b'' [], Debug ''c'' []] loaded))) = 1 \<and>
   successful_loads (trace (final (run_calls file_env
       [Debug ''a'' [], Progress ''b'' []] (start False True 1 1)))) = 1 \<and>
   load_calls (trace (final (run_calls file_env
       [Debug ''a'' [], Progress ''b'' []] (start False True 1 1)))) = 2 \<and>
   (\<exists>s'. run_calls no_file_env
       [Debug ''a'' [], Progress_Meter (Finite 50) (Finite 0) (Finite 100) 20 ''b'' [],
        Progress ''c'' []] (start True True 1 1) = Returns s' \<and>
      g_params_inited s' = 0 \<and> load_calls (trace s') = 6)"
proof -
  have a: "g_params_inited loaded \<noteq> 0" "load_calls (trace loaded) = 1"
    by (simp_all add: loaded_def)
  have b: "g_params_inited (start False True 1 1) = 0 \<and>
           successful_loads (trace (start False True 1 1)) = 0"
    by (simp add: start_def)
  have c: "g_params_inited (final (run_calls file_env
       [Debug ''a'' [], Progress ''b'' []] (start False True 1 1))) = 1"
    by (simp add: run_simps)
  have d: "load_calls (trace (final (run_calls file_env
       [Debug ''a'' [], Progress ''b'' []] (start False True 1 1)))) = 2"
    by (simp add: run_simps)
  have e: "g_params_inited (start True True 1 1) = 0 \<and>
           (\<forall>f w. fst (Load_Params_File no_file_env f w) \<noteq> 0)"
    "load_calls (trace (start True True 1 1)) = 0"
    by (simp_all add: start_def no_file_env_def)
  show ?thesis
    using gate_idempotent_once_initialised
            [of loaded file_env "[Debug ''a'' [], Progress ''b'' [], Debug ''c'' []]"]
          gate_idempotent_once_initialised
            [of "start False True 1 1" file_env "[Debug ''a'' [], Progress ''b'' []]"]
          gate_idempotent_once_initialised
            [of "start True True 1 1" no_file_env
                "[Debug ''a'' [], Progress_Meter (Finite 50) (Finite 0) (Finite 100) 20 ''b'' [],
                  Progress ''c'' []]"]
          a b c d e
    by simp
qed

text \<open>
  C3 as stated fails: while every load fails, each gated call runs the loader twice, so
  a second call of \<open>debug\<close> attempts the load again.
\<close>

theorem loader_called_again_counterexample:
  "load_calls (trace (final (run_calls file_env
       [Debug ''a'' []] (start False False 1 1)))) = 2 \<and>
   load_calls (trace (final (run_calls file_env
       [Debug ''a'' [], Debug ''b'' []] (start False False 1 1)))) = 4"
  by (simp add: run_simps)

subsection \<open>progress_meter: the fill\<close>

text \<open>
  C4, as the code has it. Let the meter be enabled, the caption free of percent signs
  and zero bytes, \<open>min\<close>, \<open>max\<close> and \<open>current\<close> doubles with \<open>min < max\<close>,
  \<open>min \<le> current \<le> max\<close> and \<open>max - min \<le> 2\<^sup>9\<^sup>9\<^sup>0\<close> (so that nothing overflows), and
  let the remaining width \<open>rem = width - (length of the caption + 1)\<close> be non-negative
  and \<open>width \<le> 1020\<close> (so that the line fits the buffer). Then the expression
  \<open>rem * (current - min) / (max - min)\<close>, evaluated in double arithmetic as the code
  does, has a finite value \<open>q \<ge> 0\<close>, and the line written is a carriage return, the
  caption, \<open>[\<close>, \<open>\<lfloor>q\<rfloor>\<close> characters \<open>|\<close>, then \<open>rem - \<lfloor>q\<rfloor> - 1\<close> characters \<open>-\<close>
  (none when that is negative), \<open>]\<close> and a carriage return. The fill \<open>\<lfloor>q\<rfloor>\<close> is at most
  \<open>rem\<close> and differs by at most one from the floor of the exact quotient. With
  \<open>current = min\<close> the fill is empty; with \<open>current = max\<close> it has \<open>rem\<close> or
  \<open>rem - 1\<close> characters and no \<open>-\<close> follows.
\<close>

theorem progress_meter_fill_is_floor:
  assumes "check_params_loaded E s = (ok, s1)" "ok \<noteq> 0"
    and "SHOW_PROGRESS_MESSAGES E (world s1) \<noteq> 0"
    and "copies_plain_text E"
    and "cap = vformat E str args" "CHR ''%'' \<notin> set cap" "CHR 0x00 \<notin> set cap"
    and "is_double mn" "is_double mx" "is_double cur"
    and "mn < mx" "mn \<le> cur" "cur \<le> mx" "mx - mn \<le> 2 ^ 990"
    and "rem = width - (int (length cap) + 1)" "0 \<le> rem" "width \<le> 1020"
  shows "\<exists>q. fill_expr rem (Finite cur) (Finite mn) (Finite mx) = Finite q \<and> 0 \<le> q \<and>
           progress_meter E (Finite cur) (Finite mn) (Finite mx) width str args s =
             Returns (emit
               [Write ERR_STREAM
                  (CR # cap @ ''['' @ replicate (nat \<lfloor>q\<rfloor>) CHR ''|'' @
                   replicate (nat (rem - (\<lfloor>q\<rfloor> + 1))) CHR ''-'' @ '']'' @ [CR]),
                Flush_All] s1) \<and>
           \<lfloor>q\<rfloor> \<le> rem \<and>
           \<bar>\<lfloor>q\<rfloor> - \<lfloor>of_int rem * (cur - mn) / (mx - mn)\<rfloor>\<bar> \<le> 1 \<and>
           (cur = mn \<longrightarrow> \<lfloor>q\<rfloor> = 0) \<and>
           (cur = mx \<longrightarrow> rem - 1 \<le> \<lfloor>q\<rfloor> \<and> nat (rem - (\<lfloor>q\<rfloor> + 1)) = 0)"
proof -
  have r: "rem \<le> INT_MAX" using assms(15,17) by (simp add: INT_MAX_def)
  obtain q where q: "fill_expr rem (Finite cur) (Finite mn) (Finite mx) = Finite q" "0 \<le> q"
    "fill_count rem (Finite cur) (Finite mn) (Finite mx) = Inr \<lfloor>q\<rfloor>"
    "0 \<le> \<lfloor>q\<rfloor>" "\<lfloor>q\<rfloor> \<le> rem"
    "\<bar>\<lfloor>q\<rfloor> - \<lfloor>of_int rem * (cur - mn) / (mx - mn)\<rfloor>\<bar> \<le> 1"
    "cur = mn \<longrightarrow> \<lfloor>q\<rfloor> = 0" "cur = mx \<longrightarrow> rem - 1 \<le> \<lfloor>q\<rfloor>"
    using assms(8-14,16) r by (rule fill_count_fill)
  note m = meter_buf_fill [OF q(3,4,5) assms(15,17)]
  have run: "progress_meter E (Finite cur) (Finite mn) (Finite mx) width str args s =
             Returns (emit
               [Write ERR_STREAM
                  (CR # cap @ ''['' @ replicate (nat \<lfloor>q\<rfloor>) CHR ''|'' @
                   replicate (nat (rem - (\<lfloor>q\<rfloor> + 1))) CHR ''-'' @ '']'' @ [CR]),
                Flush_All] s1)"
    using assms(1-7) m by (rule progress_meter_line)
  have full: "cur = mx \<longrightarrow> rem - 1 \<le> \<lfloor>q\<rfloor> \<and> nat (rem - (\<lfloor>q\<rfloor> + 1)) = 0"
    using q(8) by auto
  show ?thesis
    using q(1,2) run q(5,6,7) full by (intro exI [of _ q] conjI)
qed

theorem progress_meter_fill_is_floor_witness:
  "progress_meter file_env (Finite 50) (Finite 0) (Finite 100) 20 ''Loading'' []
       (start True False 0 1) =
     Returns \<lparr>g_params_inited = 1,
       world = \<lparr>present = True, writable = False, show_debug = 0, show_progress = 1\<rparr>,
       trace = [Load_Call ''default.parameters'' 0,
                Write Stdout (CR # ''Loading[||||||-----]'' @ [CR]), Flush_All]\<rparr> \<and>
   fill_expr (20 - (int (length ''Loading'') + 1)) (Finite 50) (Finite 0) (Finite 100) =
     Finite 6 \<and>
   progress_meter file_env (Finite 0) (Finite 0) (Finite 100) 20 ''Loading'' []
       (start True False 0 1) =
     Returns \<lparr>g_params_inited = 1,
       world = \<lparr>present = True, writable = False, show_debug = 0, show_progress = 1\<rparr>,
       trace = [Load_Call ''default.parameters'' 0,
                Write Stdout (CR # ''Loading[-----------]'' @ [CR]), Flush_All]\<rparr> \<and>
   progress_meter file_env (Finite 100) (Finite 0) (Finite 100) 20 ''Loading'' []
       (start True False 0 1) =
     Returns \<lparr>g_params_inited = 1,
       world = \<lparr>present = True, writable = False, show_debug = 0, show_progress = 1\<rparr>,
       trace = [Load_Call ''default.parameters'' 0,
                Write Stdout (CR # ''Loading[||||||||||||]'' @ [CR]), Flush_All]\<rparr>"
proof -
  have one: "(1::int) \<noteq> 0" by simp
  have cap: "''Loading'' = vformat file_env ''Loading'' []" "CHR ''%'' \<notin> set ''Loading''"
    "CHR 0x00 \<notin> set ''Loading''"
    by (simp_all add: file_env_simps)
  have d: "is_double 0" "is_double 100" by (simp_all add: is_double_def)
  have d50: "is_double 50" by (simp add: is_double_def)
  have mid: "(0::rat) < 100" "(0::rat) \<le> 50" "(50::rat) \<le> 100" by simp_all
  have lo: "(0::rat) < 100" "(0::rat) \<le> 0" "(0::rat) \<le> 100" by simp_all
  have hi: "(0::rat) < 100" "(0::rat) \<le> 100" "(100::rat) \<le> 100" by simp_all
  have big: "(100::rat) - 0 \<le> 2 ^ 990" by simp
  have rem: "12 = 20 - (int (length ''Loading'') + 1)" "(0::int) \<le> 12" "(20::int) \<le> 1020"
    by simp_all
  have q: "fill_expr 12 (Finite 50) (Finite 0) (Finite 100) = Finite 6"
    "fill_expr 12 (Finite 0) (Finite 0) (Finite 100) = Finite 0"
    "fill_expr 12 (Finite 100) (Finite 0) (Finite 100) = Finite 12"
    by (simp_all add: fill_expr_def int_to_double_def)
  note inst = progress_meter_fill_is_floor
    [OF gate_file_enabled(1) one gate_file_enabled(2) copies_plain_text_file_env cap]
  show ?thesis
    using inst [OF d d50 mid big rem] inst [OF d d(1) lo big rem] inst [OF d d(2) hi big rem]
    by (simp add: q emit_def ERR_STREAM_def replicate_numeral_unfold)
qed

text \<open>
  C4 as stated fails in three ways. When the width is smaller than the caption the
  remaining width is \<open>-8\<close>, the formula gives \<open>-4\<close>, and the line has no \<open>|\<close> at
  all. With \<open>current = max = 3192525855999671 / 2\<^sup>3\<^sup>5\<close>, \<open>min = 0\<close> and the remaining
  width 3 the product is rounded, the quotient computed is just below 3, and the line
  has two \<open>|\<close> where the exact quotient is 3. With \<open>min = -2\<^sup>1\<^sup>0\<^sup>2\<^sup>3\<close> and
  \<open>max = 2\<^sup>1\<^sup>0\<^sup>2\<^sup>3\<close> the difference overflows, the quotient is NaN, and its conversion
  to \<open>int\<close> is undefined.
\<close>

theorem progress_meter_fill_not_floor_counterexample:
  "(0::rat) < 100 \<and> (0::rat) \<le> 50 \<and> (50::rat) \<le> 100 \<and>
   progress_meter file_env (Finite 50) (Finite 0) (Finite 100) 0 ''Loading'' []
       (start True False 0 1) =
     Returns \<lparr>g_params_inited = 1,
       world = \<lparr>present = True, writable = False, show_debug = 0, show_progress = 1\<rparr>,
       trace = [Load_Call ''default.parameters'' 0,
                Write Stdout (CR # ''Loading[]'' @ [CR]), Flush_All]\<rparr> \<and>
   count_list (CR # ''Loading[]'' @ [CR]) CHR ''|'' = 0 \<and>
   \<lfloor>rat_of_int (0 - (int (length ''Loading'') + 1)) * (50 - 0) / (100 - 0)\<rfloor> = - 4 \<and>
   is_double (3192525855999671 / 34359738368) \<and>
   (0::rat) < 3192525855999671 / 34359738368 \<and>
   progress_meter file_env (Finite (3192525855999671 / 34359738368)) (Finite 0)
       (Finite (3192525855999671 / 34359738368)) 11 ''Loading'' [] (start True False 0 1) =
     Returns \<lparr>g_params_inited = 1,
       world = \<lparr>present = True, writable = False, show_debug = 0, show_progress = 1\<rparr>,
       trace = [Load_Call ''default.parameters'' 0,
                Write Stdout (CR # ''Loading[||]'' @ [CR]), Flush_All]\<rparr> \<and>
   count_list (CR # ''Loading[||]'' @ [CR]) CHR ''|'' = 2 \<and>
   \<lfloor>rat_of_int (11 - (int (length ''Loading'') + 1)) *
      (3192525855999671 / 34359738368 - 0) / (3192525855999671 / 34359738368 - 0)\<rfloor> = 3 \<and>
   is_double huge \<and> is_double (- huge) \<and> - huge < huge \<and> - huge \<le> 0 \<and> 0 \<le> huge \<and>
   progress_meter file_env (Finite 0) (Finite (- huge)) (Finite huge) 20 ''Loading'' []
       (start True False 0 1) =
     Undefined Bad_Conversion \<lparr>g_params_inited = 1,
       world = \<lparr>present = True, writable = False, show_debug = 0, show_progress = 1\<rparr>,
       trace = [Load_Call ''default.parameters'' 0]\<rparr>"
proof -
  have narrow:
    "progress_meter file_env (Finite 50) (Finite 0) (Finite 100) 0 ''Loading'' []
         (start True False 0 1) =
       Returns \<lparr>g_params_inited = 1,
         world = \<lparr>present = True, writable = False, show_debug = 0, show_progress = 1\<rparr>,
         trace = [Load_Call ''default.parameters'' 0,
                  Write Stdout (CR # ''Loading[]'' @ [CR]), Flush_All]\<rparr>"
    by (simp add: meter_simps fill_expr_def int_to_double_def c_format_plain)
  have rounded:
    "progress_meter file_env (Finite (3192525855999671 / 34359738368)) (Finite 0)
         (Finite (3192525855999671 / 34359738368)) 11 ''Loading'' [] (start True False 0 1) =
       Returns \<lparr>g_params_inited = 1,
         world = \<lparr>present = True, writable = False, show_debug = 0, show_progress = 1\<rparr>,
         trace = [Load_Call ''default.parameters'' 0,
                  Write Stdout (CR # ''Loading[||]'' @ [CR]), Flush_All]\<rparr>"
    by (simp add: meter_simps fill_expr_rounded_down floor_rounded_down c_format_plain)
  have overflow:
    "progress_meter file_env (Finite 0) (Finite (- huge)) (Finite huge) 20 ''Loading'' []
         (start True False 0 1) =
       Undefined Bad_Conversion \<lparr>g_params_inited = 1,
         world = \<lparr>present = True, writable = False, show_debug = 0, show_progress = 1\<rparr>,
         trace = [Load_Call ''default.parameters'' 0]\<rparr>"
    by (simp add: meter_simps fill_expr_overflow)
  have h: "- huge < huge" "- huge \<le> 0" "0 \<le> huge" by (simp_all add: huge_def)
  have cnt: "count_list (CR # ''Loading[]'' @ [CR]) CHR ''|'' = 0"
    "count_list (CR # ''Loading[||]'' @ [CR]) CHR ''|'' = 2"
    by (simp_all add: CR_def)
  have fl: "\<lfloor>rat_of_int (0 - (int (length ''Loading'') + 1)) * (50 - 0) / (100 - 0)\<rfloor> = - 4"
    "\<lfloor>rat_of_int (11 - (int (length ''Loading'') + 1)) *
      (3192525855999671 / 34359738368 - 0) / (3192525855999671 / 34359738368 - 0)\<rfloor> = 3"
    by simp_all
  have ex: "is_double (3192525855999671 / 34359738368)"
    "(0::rat) < 3192525855999671 / 34359738368"
    using fill_expr_rounded_down by simp_all
  show ?thesis
    using narrow rounded overflow h cnt fl ex is_double_huge by (intro conjI) simp_all
qed

subsection \<open>progress_meter: the width of the line\<close>

text \<open>
  C5, as the code has it. Under the conditions of C4 and with
  \<open>width \<ge> length of the caption + 2\<close>, the line between its two carriage returns
  (caption, brackets, fill and remainder) has at most \<open>width + 1\<close> characters.
\<close>

theorem progress_meter_line_width:
  assumes "check_params_loaded E s = (ok, s1)" "ok \<noteq> 0"
    and "SHOW_PROGRESS_MESSAGES E (world s1) \<noteq> 0"
    and "copies_plain_text E"
    and "cap = vformat E str args" "CHR ''%'' \<notin> set cap" "CHR 0x00 \<notin> set cap"
    and "is_double mn" "is_double mx" "is_double cur"
    and "mn < mx" "mn \<le> cur" "cur \<le> mx" "mx - mn \<le> 2 ^ 990"
    and "int (length cap) + 2 \<le> width" "width \<le> 1020"
  shows "\<exists>fill dashes.
           progress_meter E (Finite cur) (Finite mn) (Finite mx) width str args s =
             Returns (emit
               [Write ERR_STREAM
                  (CR # cap @ ''['' @ replicate fill CHR ''|'' @
                   replicate dashes CHR ''-'' @ '']'' @ [CR]),
                Flush_All] s1) \<and>
           int (length (cap @ ''['' @ replicate fill CHR ''|'' @
                        replicate dashes CHR ''-'' @ '']'')) \<le> width + 1"
proof -
  define rem where "rem = width - (int (length cap) + 1)"
  have rem: "0 \<le> rem" "rem \<le> INT_MAX" using assms(15,16) by (simp_all add: rem_def INT_MAX_def)
  obtain q where "fill_expr rem (Finite cur) (Finite mn) (Finite mx) = Finite q" "0 \<le> q"
    and q: "fill_count rem (Finite cur) (Finite mn) (Finite mx) = Inr \<lfloor>q\<rfloor>"
      "0 \<le> \<lfloor>q\<rfloor>" "\<lfloor>q\<rfloor> \<le> rem"
    and "\<bar>\<lfloor>q\<rfloor> - \<lfloor>of_int rem * (cur - mn) / (mx - mn)\<rfloor>\<bar> \<le> 1"
      "cur = mn \<longrightarrow> \<lfloor>q\<rfloor> = 0" "cur = mx \<longrightarrow> rem - 1 \<le> \<lfloor>q\<rfloor>"
    using assms(8-14) rem by (rule fill_count_fill)
  note m = meter_buf_fill [OF q rem_def assms(16)]
  have run: "progress_meter E (Finite cur) (Finite mn) (Finite mx) width str args s =
             Returns (emit
               [Write ERR_STREAM
                  (CR # cap @ ''['' @ replicate (nat \<lfloor>q\<rfloor>) CHR ''|'' @
                   replicate (nat (rem - (\<lfloor>q\<rfloor> + 1))) CHR ''-'' @ '']'' @ [CR]),
                Flush_All] s1)"
    using assms(1-7) m by (rule progress_meter_line)
  have "int (nat \<lfloor>q\<rfloor>) + int (nat (rem - (\<lfloor>q\<rfloor> + 1))) \<le> rem"
    using q(2,3) by (simp del: zero_le_floor)
  then have len: "int (length (cap @ ''['' @ replicate (nat \<lfloor>q\<rfloor>) CHR ''|'' @
               replicate (nat (rem - (\<lfloor>q\<rfloor> + 1))) CHR ''-'' @ '']'')) \<le> width + 1"
    by (simp add: rem_def del: int_nat_eq)
  show ?thesis using run len by blast
qed

theorem progress_meter_line_width_witness:
  "(\<exists>fill dashes.
     progress_meter file_env (Finite 50) (Finite 0) (Finite 100) 20 ''Loading'' []
         (start True False 0 1) =
       Returns (emit
         [Write ERR_STREAM
            (CR # ''Loading'' @ ''['' @ replicate fill CHR ''|'' @
             replicate dashes CHR ''-'' @ '']'' @ [CR]),
          Flush_All]
         \<lparr>g_params_inited = 1,
           world = \<lparr>present = True, writable = False, show_debug = 0, show_progress = 1\<rparr>,
           trace = [Load_Call ''default.parameters'' 0]\<rparr>) \<and>
     int (length (''Loading'' @ ''['' @ replicate fill CHR ''|'' @
                  replicate dashes CHR ''-'' @ '']'')) \<le> 21) \<and>
   length ''Loading[||||||-----]'' = 20"
proof -
  have one: "(1::int) \<noteq> 0" by simp
  have cap: "''Loading'' = vformat file_env ''Loading'' []" "CHR ''%'' \<notin> set ''Loading''"
    "CHR 0x00 \<notin> set ''Loading''"
    by (simp_all add: file_env_simps)
  have d: "is_double 0" "is_double 100" "is_double 50" by (simp_all add: is_double_def)
  have range: "(0::rat) < 100" "(0::rat) \<le> 50" "(50::rat) \<le> 100" "(100::rat) - 0 \<le> 2 ^ 990"
    by simp_all
  have w: "int (length ''Loading'') + 2 \<le> 20" "(20::int) \<le> 1020" by simp_all
  show ?thesis
    using progress_meter_line_width
            [OF gate_file_enabled(1) one gate_file_enabled(2) copies_plain_text_file_env
                cap d range w]
    by simp
qed

text \<open>
  C5 as stated fails at \<open>current = max\<close>: for width 20 the line has 21 characters
  between the carriage returns. With \<open>min = -2\<^sup>1\<^sup>0\<^sup>2\<^sup>3\<close> and \<open>max = 2\<^sup>1\<^sup>0\<^sup>2\<^sup>3\<close> the
  difference overflows and no line is defined.
\<close>

theorem progress_meter_line_too_wide_counterexample:
  "(0::rat) < 100 \<and> (0::rat) \<le> 100 \<and> (100::rat) \<le> 100 \<and>
   int (length ''Loading'') + 2 \<le> 20 \<and>
   progress_meter file_env (Finite 100) (Finite 0) (Finite 100) 20 ''Loading'' []
       (start True False 0 1) =
     Returns \<lparr>g_params_inited = 1,
       world = \<lparr>present = True, writable = False, show_debug = 0, show_progress = 1\<rparr>,
       trace = [Load_Call ''default.parameters'' 0,
                Write Stdout (CR # ''Loading[||||||||||||]'' @ [CR]), Flush_All]\<rparr> \<and>
   length ''Loading[||||||||||||]'' = 21 \<and>
   is_double huge \<and> is_double (- huge) \<and> - huge < huge \<and> - huge \<le> 0 \<and> 0 \<le> huge \<and>
   progress_meter file_env (Finite 0) (Finite (- huge)) (Finite huge) 30 ''Loading'' []
       (start True False 0 1) =
     Undefined Bad_Conversion \<lparr>g_params_inited = 1,
       world = \<lparr>present = True, writable = False, show_debug = 0, show_progress = 1\<rparr>,
       trace = [Load_Call ''default.parameters'' 0]\<rparr>"
proof -
  have wide:
    "progress_meter file_env (Finite 100) (Finite 0) (Finite 100) 20 ''Loading'' []
         (start True False 0 1) =
       Returns \<lparr>g_params_inited = 1,
         world = \<lparr>present = True, writable = False, show_debug = 0, show_progress = 1\<rparr>,
         trace = [Load_Call ''default.parameters'' 0,
                  Write Stdout (CR # ''Loading[||||||||||||]'' @ [CR]), Flush_All]\<rparr>"
    by (simp add: meter_simps fill_expr_def int_to_double_def c_format_plain)
  have overflow:
    "progress_meter file_env (Finite 0) (Finite (- huge)) (Finite huge) 30 ''Loading'' []
         (start True False 0 1) =
       Undefined Bad_Conversion \<lparr>g_params_inited = 1,
         world = \<lparr>present = True, writable = False, show_debug = 0, show_progress = 1\<rparr>,
         trace = [Load_Call ''default.parameters'' 0]\<rparr>"
    by (simp add: meter_simps fill_expr_overflow)
  have h: "- huge < huge" "- huge \<le> 0" "0 \<le> huge" by (simp_all add: huge_def)
  show ?thesis
    using wide overflow h is_double_huge by (intro conjI) simp_all
qed

subsection \<open>error\<close>

text \<open>
  C6. For every format, arguments and state (whatever the configuration state is),
  \<open>error\<close> ends the process with a non-zero exit code and does not return; before
  that it has added to the output stream the prefix \<open>*** ERROR: \<close> followed by the
  formatted message, and then flushed all streams. It changes nothing else.
\<close>

theorem error_writes_prefix_flushes_and_exits:
  "\<exists>c s'. error E str args s = Exits c s' \<and> c \<noteq> 0 \<and>
     trace s' = trace s @
       [Write ERR_STREAM ''*** ERROR: '', Write ERR_STREAM (vformat E str args), Flush_All] \<and>
     written ERR_STREAM (trace s') =
       written ERR_STREAM (trace s) @ ''*** ERROR: '' @ vformat E str args \<and>
     g_params_inited s' = g_params_inited s \<and> world s' = world s"
  by (simp add: error_def emit_def written_append)

subsection \<open>help\<close>

text \<open>
  C7. With \<open>show\<close> false (zero) \<open>help\<close> returns and leaves the state as it was:
  nothing is written and the process goes on. With \<open>show\<close> true (non-zero) it does
  not return: it calls the usage printer with the output stream, writes the formatted
  message, flushes, and ends the process with exit code 0.
\<close>

theorem help_noop_or_usage_then_exit_zero:
  "(show = 0 \<longrightarrow> help E show str args s = Returns s) \<and>
   (show \<noteq> 0 \<longrightarrow>
      (\<exists>s'. help E show str args s = Exits 0 s' \<and>
         trace s' = trace s @
           [Usage_Call ERR_STREAM 0, Write ERR_STREAM (vformat E str args), Flush_All] \<and>
         g_params_inited s' = g_params_inited s \<and> world s' = world s))"
  by (simp add: help_def emit_def)

theorem help_noop_or_usage_then_exit_zero_witness:
  "help file_env 0 ''%s: bad option'' [Arg_Str ''whisk''] (start True True 0 0) =
     Returns (start True True 0 0) \<and>
   (\<exists>s'. help file_env 1 ''%s: bad option'' [Arg_Str ''whisk''] (start True True 0 0) =
       Exits 0 s' \<and>
     trace s' = [Usage_Call Stdout 0, Write Stdout ''whisk: bad option'', Flush_All])"
  using help_noop_or_usage_then_exit_zero
          [of 0 file_env "''%s: bad option''" "[Arg_Str ''whisk'']" "start True True 0 0"]
        help_noop_or_usage_then_exit_zero
          [of 1 file_env "''%s: bad option''" "[Arg_Str ''whisk'']" "start True True 0 0"]
  by (auto simp add: file_env_def start_def ERR_STREAM_def)

subsection \<open>progress_meter: what reaches the stream\<close>

text \<open>
  C8. The line is assembled as stated, but \<open>fprintf(ERR_STREAM,buf)\<close> hands it to
  the stream as a format. For the format \<open>%%%%\<close> the caption is \<open>%%\<close>, the
  assembled line is a carriage return, \<open>%%[||||---]\<close> and a carriage return, and what
  is written has one percent sign less.
\<close>

theorem progress_meter_line_used_as_format:
  "meter_buf (vformat file_env ''%%%%'' []) (Finite 1) (Finite 0) (Finite 2) 11 =
     Inr (CR # ''%%[||||---]'' @ [CR]) \<and>
   progress_meter file_env (Finite 1) (Finite 0) (Finite 2) 11 ''%%%%'' []
       (start True False 0 1) =
     Returns \<lparr>g_params_inited = 1,
       world = \<lparr>present = True, writable = False, show_debug = 0, show_progress = 1\<rparr>,
       trace = [Load_Call ''default.parameters'' 0,
                Write Stdout (CR # ''%[||||---]'' @ [CR]), Flush_All]\<rparr>"
  by (simp add: meter_simps fill_expr_def int_to_double_def)

subsection \<open>progress_meter: a width smaller than the caption\<close>

text \<open>
  C9, as the code has it. Let the meter be enabled, the caption free of percent signs
  and zero bytes and of at most 1019 characters, \<open>min\<close>, \<open>max\<close> and \<open>current\<close>
  doubles with \<open>min < max\<close>, \<open>min \<le> current \<le> max\<close> and \<open>max - min \<le> 2\<^sup>9\<^sup>9\<^sup>0\<close>, and
  \<open>width\<close> smaller than the length of the caption (and not within the caption's
  length plus 3 of the smallest \<open>int\<close>). Then the remaining width is negative, both
  loop counters are at most zero when their loops are reached, so neither loop writes,
  and the line written is a carriage return, the caption, \<open>[]\<close> and a carriage
  return.
\<close>

theorem progress_meter_narrow_width:
  assumes "check_params_loaded E s = (ok, s1)" "ok \<noteq> 0"
    and "SHOW_PROGRESS_MESSAGES E (world s1) \<noteq> 0"
    and "copies_plain_text E"
    and "cap = vformat E str args" "CHR ''%'' \<notin> set cap" "CHR 0x00 \<notin> set cap"
    and "is_double mn" "is_double mx" "is_double cur"
    and "mn < mx" "mn \<le> cur" "cur \<le> mx" "mx - mn \<le> 2 ^ 990"
    and "rem = width - (int (length cap) + 1)"
    and "width < int (length cap)" "INT_MIN + 2 \<le> rem" "length cap \<le> 1019"
  shows "rem < 0 \<and>
         (\<exists>nc. fill_count rem (Finite cur) (Finite mn) (Finite mx) = Inr nc \<and>
               nc \<le> 0 \<and> rem - (nc + 1) < 0) \<and>
         progress_meter E (Finite cur) (Finite mn) (Finite mx) width str args s =
           Returns (emit [Write ERR_STREAM (CR # cap @ ''[]'' @ [CR]), Flush_All] s1)"
proof -
  have neg: "rem < 0" using assms(15,16) by simp
  have "rem \<le> 0" "INT_MIN \<le> rem" using neg assms(17) by simp_all
  from fill_count_negative [OF assms(8-14) this]
  obtain nc where nc: "fill_count rem (Finite cur) (Finite mn) (Finite mx) = Inr nc"
    "rem \<le> nc" "nc \<le> 0"
    by blast
  have m: "meter_buf cap (Finite cur) (Finite mn) (Finite mx) width =
             Inr (CR # cap @ ''['' @ replicate 0 CHR ''|'' @ replicate 0 CHR ''-'' @
                  '']'' @ [CR])"
    using meter_buf_empty [OF nc assms(15) neg assms(17,18)] by simp
  have "progress_meter E (Finite cur) (Finite mn) (Finite mx) width str args s =
           Returns (emit
             [Write ERR_STREAM
                (CR # cap @ ''['' @ replicate 0 CHR ''|'' @ replicate 0 CHR ''-'' @
                 '']'' @ [CR]),
              Flush_All] s1)"
    using assms(1-7) m by (rule progress_meter_line)
  then have "progress_meter E (Finite cur) (Finite mn) (Finite mx) width str args s =
           Returns (emit [Write ERR_STREAM (CR # cap @ ''[]'' @ [CR]), Flush_All] s1)"
    by simp
  moreover have "\<exists>nc. fill_count rem (Finite cur) (Finite mn) (Finite mx) = Inr nc \<and>
               nc \<le> 0 \<and> rem - (nc + 1) < 0"
    using nc by auto
  ultimately show ?thesis using neg by simp
qed

theorem progress_meter_narrow_width_witness:
  "progress_meter file_env (Finite 50) (Finite 0) (Finite 100) 5 ''Loading'' []
       (start True False 0 1) =
     Returns \<lparr>g_params_inited = 1,
       world = \<lparr>present = True, writable = False, show_debug = 0, show_progress = 1\<rparr>,
       trace = [Load_Call ''default.parameters'' 0,
                Write Stdout (CR # ''Loading[]'' @ [CR]), Flush_All]\<rparr> \<and>
   (\<exists>nc. fill_count (- 3) (Finite 50) (Finite 0) (Finite 100) = Inr nc \<and> nc \<le> 0 \<and>
         - 3 - (nc + 1) < 0)"
proof -
  have one: "(1::int) \<noteq> 0" by simp
  have cap: "''Loading'' = vformat file_env ''Loading'' []" "CHR ''%'' \<notin> set ''Loading''"
    "CHR 0x00 \<notin> set ''Loading''"
    by (simp_all add: file_env_simps)
  have d: "is_double 0" "is_double 100" "is_double 50" by (simp_all add: is_double_def)
  have range: "(0::rat) < 100" "(0::rat) \<le> 50" "(50::rat) \<le> 100" "(100::rat) - 0 \<le> 2 ^ 990"
    by simp_all
  have w: "- 3 = 5 - (int (length ''Loading'') + 1)" "5 < int (length ''Loading'')"
    "INT_MIN + 2 \<le> - 3" "length ''Loading'' \<le> 1019"
    by (simp_all add: INT_MIN_def)
  show ?thesis
    using progress_meter_narrow_width
            [OF gate_file_enabled(1) one gate_file_enabled(2) copies_plain_text_file_env
                cap d range w]
    by (simp add: emit_def ERR_STREAM_def)
qed

text \<open>
  C9 as stated fails outside \<open>min \<le> current \<le> max\<close>: with width 0 and the caption
  \<open>Loading\<close>, \<open>current\<close> below \<open>min\<close> makes the first loop write eight
  \<open>|\<close>, and \<open>current\<close> above \<open>max\<close> makes the second write seven \<open>-\<close>. With
  \<open>min = -2\<^sup>1\<^sup>0\<^sup>2\<^sup>3\<close>, \<open>max = 2\<^sup>1\<^sup>0\<^sup>2\<^sup>3\<close> and \<open>current = 0\<close> the difference overflows,
  the quotient is NaN, and nothing is defined from its conversion on.
\<close>

theorem progress_meter_narrow_width_bar_counterexample:
  "(0::rat) < 100 \<and> (0::int) < int (length ''Loading'') \<and>
   progress_meter file_env (Finite (- 100)) (Finite 0) (Finite 100) 0 ''Loading'' []
       (start True False 0 1) =
     Returns \<lparr>g_params_inited = 1,
       world = \<lparr>present = True, writable = False, show_debug = 0, show_progress = 1\<rparr>,
       trace = [Load_Call ''default.parameters'' 0,
                Write Stdout (CR # ''Loading[||||||||]'' @ [CR]), Flush_All]\<rparr> \<and>
   progress_meter file_env (Finite 200) (Finite 0) (Finite 100) 0 ''Loading'' []
       (start True False 0 1) =
     Returns \<lparr>g_params_inited = 1,
       world = \<lparr>present = True, writable = False, show_debug = 0, show_progress = 1\<rparr>,
       trace = [Load_Call ''default.parameters'' 0,
                Write Stdout (CR # ''Loading[-------]'' @ [CR]), Flush_All]\<rparr> \<and>
   is_double huge \<and> is_double (- huge) \<and> - huge < huge \<and> - huge \<le> 0 \<and> 0 \<le> huge \<and>
   (5::int) < int (length ''Loading'') \<and>
   progress_meter file_env (Finite 0) (Finite (- huge)) (Finite huge) 5 ''Loading'' []
       (start True False 0 1) =
     Undefined Bad_Conversion \<lparr>g_params_inited = 1,
       world = \<lparr>present = True, writable = False, show_debug = 0, show_progress = 1\<rparr>,
       trace = [Load_Call ''default.parameters'' 0]\<rparr>"
proof -
  have below:
    "progress_meter file_env (Finite (- 100)) (Finite 0) (Finite 100) 0 ''Loading'' []
         (start True False 0 1) =
       Returns \<lparr>g_params_inited = 1,
         world = \<lparr>present = True, writable = False, show_debug = 0, show_progress = 1\<rparr>,
         trace = [Load_Call ''default.parameters'' 0,
                  Write Stdout (CR # ''Loading[||||||||]'' @ [CR]), Flush_All]\<rparr>"
    by (simp add: meter_simps fill_expr_def int_to_double_def c_format_plain)
  have above:
    "progress_meter file_env (Finite 200) (Finite 0) (Finite 100) 0 ''Loading'' []
         (start True False 0 1) =
       Returns \<lparr>g_params_inited = 1,
         world = \<lparr>present = True, writable = False, show_debug = 0, show_progress = 1\<rparr>,
         trace = [Load_Call ''default.parameters'' 0,
                  Write Stdout (CR # ''Loading[-------]'' @ [CR]), Flush_All]\<rparr>"
    by (simp add: meter_simps fill_expr_def int_to_double_def c_format_plain)
  have overflow:
    "progress_meter file_env (Finite 0) (Finite (- huge)) (Finite huge) 5 ''Loading'' []
         (start True False 0 1) =
       Undefined Bad_Conversion \<lparr>g_params_inited = 1,
         world = \<lparr>present = True, writable = False, show_debug = 0, show_progress = 1\<rparr>,
         trace = [Load_Call ''default.parameters'' 0]\<rparr>"
    by (simp add: meter_simps fill_expr_overflow)
  have h: "- huge < huge" "- huge \<le> 0" "0 \<le> huge" by (simp_all add: huge_def)
  show ?thesis
    using below above overflow h is_double_huge by (intro conjI) simp_all
qed

subsection \<open>progress_meter: the suppressed call\<close>

text \<open>
  C10, as the code has it. When the gate returns zero or the progress flag is zero,
  \<open>progress_meter\<close> returns the state the gate left: it adds no write and no flush of
  its own, where \<open>progress\<close> (and \<open>debug\<close>, when its message is suppressed) adds
  one flush. When the gate was already initialised or its first load succeeds, the gate
  writes and flushes nothing either, and the whole call of \<open>progress_meter\<close> leaves
  the stream untouched. When the first load fails, the call leaves on the stream the
  first warning of the gate, followed by the second when the gate fails, with one flush
  for each warning.
\<close>

theorem progress_meter_adds_nothing_when_suppressed:
  assumes "check_params_loaded E s = (ok, s1)"
    and "ok = 0 \<or> SHOW_PROGRESS_MESSAGES E (world s1) = 0"
  shows "progress_meter E cur mn mx len str args s = Returns s1 \<and>
         progress E str args s = Returns (emit [Flush_All] s1) \<and>
         (ok = 0 \<or> SHOW_DEBUG_MESSAGES E (world s1) = 0 \<longrightarrow>
            debug E str args s = Returns (emit [Flush_All] s1)) \<and>
         (g_params_inited s \<noteq> 0 \<or>
          fst (Load_Params_File E ''default.parameters'' (world s)) = 0 \<longrightarrow>
            written ERR_STREAM (trace s1) = written ERR_STREAM (trace s) \<and>
            flushes (trace s1) = flushes (trace s) \<and>
            flushes (trace (emit [Flush_All] s1)) = flushes (trace s) + 1) \<and>
         (g_params_inited s = 0 \<and>
          fst (Load_Params_File E ''default.parameters'' (world s)) \<noteq> 0 \<longrightarrow>
            written ERR_STREAM (trace s1) =
              written ERR_STREAM (trace s) @
              ''--- Warning: '' @
              vformat E load_failed_msg
                [Arg_Str ''default.parameters'', Arg_Str ''default.parameters''] @
              (if ok = 0 then ''--- Warning: '' @ vformat E still_failed_msg [] else []) \<and>
            flushes (trace s1) = flushes (trace s) + (if ok = 0 then 2 else 1))"
proof -
  have "progress_meter E cur mn mx len str args s = Returns s1 \<and>
         progress E str args s = Returns (emit [Flush_All] s1) \<and>
         (ok = 0 \<or> SHOW_DEBUG_MESSAGES E (world s1) = 0 \<longrightarrow>
            debug E str args s = Returns (emit [Flush_All] s1)) \<and>
         (g_params_inited s \<noteq> 0 \<or>
          fst (Load_Params_File E ''default.parameters'' (world s)) = 0 \<longrightarrow>
            written ERR_STREAM (trace s1) = written ERR_STREAM (trace s) \<and>
            flushes (trace s1) = flushes (trace s) \<and>
            flushes (trace (emit [Flush_All] s1)) = flushes (trace s) + 1)"
    using assms gate_quiet [OF assms(1)]
    by (auto simp add: progress_meter_after_gate progress_after_gate debug_after_gate
        flushes_append)
  moreover have "g_params_inited s = 0 \<and>
          fst (Load_Params_File E ''default.parameters'' (world s)) \<noteq> 0 \<longrightarrow>
            written ERR_STREAM (trace s1) =
              written ERR_STREAM (trace s) @
              ''--- Warning: '' @
              vformat E load_failed_msg
                [Arg_Str ''default.parameters'', Arg_Str ''default.parameters''] @
              (if ok = 0 then ''--- Warning: '' @ vformat E still_failed_msg [] else []) \<and>
            flushes (trace s1) = flushes (trace s) + (if ok = 0 then 2 else 1)"
    using gate_noisy [OF assms(1)] by blast
  ultimately show ?thesis by blast
qed

theorem progress_meter_adds_nothing_when_suppressed_witness:
  "progress_meter file_env (Finite 50) (Finite 0) (Finite 100) 20 ''Loading'' []
       (start True False 0 0) =
     Returns \<lparr>g_params_inited = 1,
       world = \<lparr>present = True, writable = False, show_debug = 0, show_progress = 0\<rparr>,
       trace = [Load_Call ''default.parameters'' 0]\<rparr> \<and>
   progress file_env ''Loading'' [] (start True False 0 0) =
     Returns \<lparr>g_params_inited = 1,
       world = \<lparr>present = True, writable = False, show_debug = 0, show_progress = 0\<rparr>,
       trace = [Load_Call ''default.parameters'' 0, Flush_All]\<rparr> \<and>
   debug file_env ''Loading'' [] (start True False 0 0) =
     Returns \<lparr>g_params_inited = 1,
       world = \<lparr>present = True, writable = False, show_debug = 0, show_progress = 0\<rparr>,
       trace = [Load_Call ''default.parameters'' 0, Flush_All]\<rparr> \<and>
   progress_meter file_env (Finite 50) (Finite 0) (Finite 100) 20 ''Loading'' []
       (start False False 1 1) =
     Returns (snd (check_params_loaded file_env (start False False 1 1))) \<and>
   progress file_env ''Loading'' [] (start False False 1 1) =
     Returns (emit [Flush_All] (snd (check_params_loaded file_env (start False False 1 1)))) \<and>
   written Stdout (trace (snd (check_params_loaded file_env (start False False 1 1)))) =
     ''--- Warning: '' @ load_failed_text @ ''--- Warning: '' @ still_failed_msg \<and>
   flushes (trace (snd (check_params_loaded file_env (start False False 1 1)))) = 2 \<and>
   progress_meter file_env (Finite 50) (Finite 0) (Finite 100) 20 ''Loading'' []
       (start False True 1 0) =
     Returns (snd (check_params_loaded file_env (start False True 1 0))) \<and>
   written Stdout (trace (snd (check_params_loaded file_env (start False True 1 0)))) =
     ''--- Warning: '' @ load_failed_text \<and>
   flushes (trace (snd (check_params_loaded file_env (start False True 1 0)))) = 1"
proof -
  have f: "fst (Load_Params_File file_env ''default.parameters''
             (world (start False w d g))) \<noteq> 0" for w d g
    by (simp add: file_env_def start_def)
  show ?thesis
    using progress_meter_adds_nothing_when_suppressed
            [OF gate_file_present [of False 0 0],
             of "Finite 50" "Finite 0" "Finite 100" 20 "''Loading''" "[]"]
          progress_meter_adds_nothing_when_suppressed
            [OF gate_file_missing [of 1 1],
             of "Finite 50" "Finite 0" "Finite 100" 20 "''Loading''" "[]"]
          progress_meter_adds_nothing_when_suppressed
            [OF gate_file_written [of 1 0],
             of "Finite 50" "Finite 0" "Finite 100" 20 "''Loading''" "[]"]
          f [of False 1 1] f [of True 1 0]
    by (simp add: emit_def file_env_simps start_simps gate_file_missing gate_file_written
        ERR_STREAM_def c_format_load_failed_msg c_format_still_failed_msg)
qed

text \<open>
  C10 as stated fails when the gate fails: the call of \<open>progress_meter\<close> then
  carries the two warnings of the gate and their two flushes.
\<close>

theorem progress_meter_gate_warnings_counterexample:
  "fst (check_params_loaded file_env (start False False 1 1)) = 0 \<and>
   progress_meter file_env (Finite 50) (Finite 0) (Finite 100) 20 ''Loading'' []
       (start False False 1 1) =
     Returns \<lparr>g_params_inited = 0,
       world = \<lparr>present = False, writable = False, show_debug = 1, show_progress = 1\<rparr>,
       trace =
         [Load_Call ''default.parameters'' 1,
          Write Stdout ''--- Warning: '', Write Stdout load_failed_text, Flush_All,
          Print_Params_Call ''default.parameters'',
          Load_Call ''default.parameters'' 1,
          Write Stdout ''--- Warning: '', Write Stdout still_failed_msg, Flush_All]\<rparr> \<and>
   written Stdout (trace (final
     (progress_meter file_env (Finite 50) (Finite 0) (Finite 100) 20 ''Loading'' []
        (start False False 1 1)))) \<noteq> [] \<and>
   flushes (trace (final
     (progress_meter file_env (Finite 50) (Finite 0) (Finite 100) 20 ''Loading'' []
        (start False False 1 1)))) = 2"
  by (simp add: progress_meter_def gate_file_missing)

end
